theory Spec2Isabelle
  imports Complex_Main
begin

section \<open>Python values used by the client\<close>

text \<open>
  A Python \<open>str\<close> is a sequence of Unicode code points (\<open>0 .. 0x10FFFF\<close>, lone
  surrogates included); a \<open>bytes\<close> object is a sequence of integers below 256.
  Both are lists of naturals here. \<open>str\<close> turns an ASCII literal of the source into
  its code points.
\<close>

type_synonym pystr = "nat list"
type_synonym pybytes = "nat list"

definition str :: "string \<Rightarrow> pystr" where
  "str cs = map of_char cs"

text \<open>The exceptions that the modelled code paths can raise.\<close>

datatype error =
    TypeError
  | ValueError
  | AttributeError
  | RuntimeError
  | UnicodeEncodeError
  | ValidationError
  | ClientError
  | ResponseError

section \<open>\<open>urllib.parse.quote\<close>\<close>

text \<open>
  \<open>str.encode("utf-8", "strict")\<close>, one code point at a time. A surrogate code point
  (\<open>U+D800 .. U+DFFF\<close>) cannot be encoded and raises \<open>UnicodeEncodeError\<close>.
\<close>

definition utf8_char :: "nat \<Rightarrow> pybytes option" where
  "utf8_char c =
     (if c < 0x80 then Some [c]
      else if c < 0x800 then Some [0xC0 + c div 64, 0x80 + c mod 64]
      else if 0xD800 \<le> c \<and> c \<le> 0xDFFF then None
      else if c < 0x10000 then
        Some [0xE0 + c div 4096, 0x80 + (c div 64) mod 64, 0x80 + c mod 64]
      else if c < 0x110000 then
        Some [0xF0 + c div 262144, 0x80 + (c div 4096) mod 64,
              0x80 + (c div 64) mod 64, 0x80 + c mod 64]
      else None)"

fun encode_utf8 :: "pystr \<Rightarrow> error + pybytes" where
  "encode_utf8 [] = Inr []"
| "encode_utf8 (c # cs) =
     (case utf8_char c of
        None \<Rightarrow> Inl UnicodeEncodeError
      | Some bs \<Rightarrow>
          (case encode_utf8 cs of
             Inl e \<Rightarrow> Inl e
           | Inr rest \<Rightarrow> Inr (bs @ rest)))"

text \<open>\<open>_ALWAYS_SAFE\<close>: the unreserved characters, which \<open>quote\<close> never escapes.\<close>

definition ALWAYS_SAFE :: "nat list" where
  "ALWAYS_SAFE =
     str (''ABCDEFGHIJKLMNOPQRSTUVWXYZ'' @ ''abcdefghijklmnopqrstuvwxyz''
          @ ''0123456789'' @ ''_.-~'')"

text \<open>One upper-case hexadecimal digit, as \<open>'%{:02X}'.format\<close> prints it.\<close>

definition hex_upper :: "nat \<Rightarrow> nat" where
  "hex_upper d = (if d < 10 then 48 + d else 55 + d)"

text \<open>The quoter of one byte: \<open>chr(b) if b in safe else '%{:02X}'.format(b)\<close>.\<close>

definition quoter :: "nat list \<Rightarrow> nat \<Rightarrow> pystr" where
  "quoter safe b =
     (if b \<in> set safe then [b] else [37, hex_upper (b div 16), hex_upper (b mod 16)])"

definition quote_from_bytes :: "pybytes \<Rightarrow> pystr \<Rightarrow> pystr" where
  "quote_from_bytes bs safe =
     (if bs = [] then []
      else
        let safe_bytes = filter (\<lambda>c. c < 128) safe in
        if list_all (\<lambda>b. b \<in> set (ALWAYS_SAFE @ safe_bytes)) bs then bs
        else concat (map (quoter (ALWAYS_SAFE @ safe_bytes)) bs))"

definition quote :: "pystr \<Rightarrow> pystr \<Rightarrow> error + pystr" where
  "quote string safe =
     (if string = [] then Inr string
      else
        (case encode_utf8 string of
           Inl e \<Rightarrow> Inl e
         | Inr bs \<Rightarrow> Inr (quote_from_bytes bs safe)))"

section \<open>Path segments\<close>

text \<open>\<open>AuthenticatedHippo._encode_path_segment\<close>: \<open>quote(quote(s, safe=""), safe="")\<close>.\<close>

definition encode_path_segment :: "pystr \<Rightarrow> error + pystr" where
  "encode_path_segment path_segment =
     (case quote path_segment [] of
        Inl e \<Rightarrow> Inl e
      | Inr once \<Rightarrow> quote once [])"

text \<open>
  Modelled from the spec: the service's decoder is not part of this repository. The
  spec describes it as two successive percent-decoding passes. One pass replaces every
  \<open>%XY\<close> (two hexadecimal digits, either case) by the byte it denotes, keeps every
  other character as its UTF-8 bytes, and reads the bytes back as strict UTF-8; a
  malformed byte sequence has no decoding.
\<close>

definition unhex :: "nat \<Rightarrow> nat option" where
  "unhex c =
     (if 48 \<le> c \<and> c \<le> 57 then Some (c - 48)
      else if 65 \<le> c \<and> c \<le> 70 then Some (c - 55)
      else if 97 \<le> c \<and> c \<le> 102 then Some (c - 87)
      else None)"

fun percent_bytes :: "pystr \<Rightarrow> pybytes option" where
  "percent_bytes [] = Some []"
| "percent_bytes (c # cs) =
     (if c = 37 then
        (case cs of
           h # l # rest \<Rightarrow>
             (case (unhex h, unhex l) of
                (Some a, Some b) \<Rightarrow> map_option ((#) (a * 16 + b)) (percent_bytes rest)
              | _ \<Rightarrow> map_option ((#) 37) (percent_bytes cs))
         | _ \<Rightarrow> map_option ((#) 37) (percent_bytes cs))
      else
        (case utf8_char c of
           None \<Rightarrow> None
         | Some bs \<Rightarrow> map_option ((@) bs) (percent_bytes cs)))"

definition continuation :: "nat \<Rightarrow> bool" where
  "continuation b \<longleftrightarrow> 0x80 \<le> b \<and> b < 0xC0"

fun decode_utf8 :: "pybytes \<Rightarrow> pystr option" where
  "decode_utf8 [] = Some []"
| "decode_utf8 (b # bs) =
     (if b < 0x80 then map_option ((#) b) (decode_utf8 bs)
      else if 0xC0 \<le> b \<and> b < 0xE0 then
        (case bs of
           b1 # rest \<Rightarrow>
             (let c = (b - 0xC0) * 64 + (b1 - 0x80) in
              if continuation b1 \<and> 0x80 \<le> c
              then map_option ((#) c) (decode_utf8 rest) else None)
         | _ \<Rightarrow> None)
      else if 0xE0 \<le> b \<and> b < 0xF0 then
        (case bs of
           b1 # b2 # rest \<Rightarrow>
             (let c = (b - 0xE0) * 4096 + (b1 - 0x80) * 64 + (b2 - 0x80) in
              if continuation b1 \<and> continuation b2 \<and> 0x800 \<le> c
                 \<and> \<not> (0xD800 \<le> c \<and> c \<le> 0xDFFF)
              then map_option ((#) c) (decode_utf8 rest) else None)
         | _ \<Rightarrow> None)
      else if 0xF0 \<le> b \<and> b < 0xF8 then
        (case bs of
           b1 # b2 # b3 # rest \<Rightarrow>
             (let c = (b - 0xF0) * 262144 + (b1 - 0x80) * 4096
                      + (b2 - 0x80) * 64 + (b3 - 0x80) in
              if continuation b1 \<and> continuation b2 \<and> continuation b3
                 \<and> 0x10000 \<le> c \<and> c < 0x110000
              then map_option ((#) c) (decode_utf8 rest) else None)
         | _ \<Rightarrow> None)
      else None)"

definition percent_decode :: "pystr \<Rightarrow> pystr option" where
  "percent_decode s = Option.bind (percent_bytes s) decode_utf8"

definition service_decode :: "pystr \<Rightarrow> pystr option" where
  "service_decode s = Option.bind (percent_decode s) percent_decode"


text \<open>
  A Unicode scalar value: a code point that is not a surrogate. These are the code
  points that UTF-8 can encode.
\<close>

definition unicode_scalar :: "nat \<Rightarrow> bool" where
  "unicode_scalar c \<longleftrightarrow> c < 0xD800 \<or> (0xE000 \<le> c \<and> c < 0x110000)"

text \<open>What a second \<open>quote\<close> pass does to the output of a first one: \<open>%\<close> becomes \<open>%25\<close>.\<close>

definition escape_percent :: "pystr \<Rightarrow> pystr" where
  "escape_percent q = concat (map (\<lambda>c. if c = 37 then str ''%25'' else [c]) q)"

text \<open>
  The path expression that \<open>read_document\<close>, \<open>update_document\<close> and
  \<open>delete_document\<close> each build inline (\<open>document_exists\<close> appends \<open>/exists\<close> to it):
  \<open>"api/" + enc(database_path) + "/" + enc(name)\<close>. An encoding error of either
  argument is raised before anything is sent.
\<close>

definition document_path :: "pystr \<Rightarrow> pystr \<Rightarrow> error + pystr" where
  "document_path database_path name =
     (case encode_path_segment database_path of
        Inl e \<Rightarrow> Inl e
      | Inr d \<Rightarrow>
          (case encode_path_segment name of
             Inl e \<Rightarrow> Inl e
           | Inr n \<Rightarrow> Inr (str ''api/'' @ d @ str ''/'' @ n)))"

section \<open>Values exchanged with the service\<close>

text \<open>
  A decoded JSON value, as \<open>response.json()\<close> returns it: a Python \<open>dict\<close> keeps
  insertion order and has distinct keys.
\<close>

datatype json =
    JNull
  | JBool bool
  | JInt int
  | JFloat real
  | JString pystr
  | JArray "json list"
  | JObject "(pystr \<times> json) list"

record ApplicationInfo =
  id' :: pystr
  name :: pystr

record DatabaseInfo =
  path :: pystr

datatype charset = Latin1 | Utf8

record BasicAuth =
  login :: pystr
  password :: pystr
  encoding :: charset

text \<open>
  \<open>aiohttp.BasicAuth(login, password, encoding)\<close>: the constructor rejects a login
  that contains a colon with \<open>ValueError\<close>.
\<close>

definition BasicAuth_new :: "pystr \<Rightarrow> pystr \<Rightarrow> charset \<Rightarrow> error + BasicAuth" where
  "BasicAuth_new l p enc =
     (if 58 \<in> set l then Inl ValueError
      else Inr \<lparr>login = l, password = p, encoding = enc\<rparr>)"

text \<open>
  \<open>yarl.URL\<close>; the client only stores it and calls \<open>joinpath\<close> on it. An absolute URL
  is kept as its origin (scheme, host and port), the credentials written into it as
  \<open>aiohttp\<close> reads them with \<open>BasicAuth.from_url\<close> (\<open>None\<close> when the URL has no user
  part), and its path.
\<close>

datatype URL = URL (origin: pystr) (url_auth: "BasicAuth option") (raw_path: pystr)

text \<open>\<open>str.split(sep)\<close> and \<open>sep.join(parts)\<close> for a separator of one character.\<close>

fun split_on :: "nat \<Rightarrow> pystr \<Rightarrow> pystr list" where
  "split_on sep [] = [[]]"
| "split_on sep (c # cs) =
     (if c = sep then [] # split_on sep cs
      else (case split_on sep cs of
              seg # segs \<Rightarrow> (c # seg) # segs
            | [] \<Rightarrow> [[c]]))"

fun join_with :: "nat \<Rightarrow> pystr list \<Rightarrow> pystr" where
  "join_with sep [] = []"
| "join_with sep [seg] = seg"
| "join_with sep (seg # segs) = seg @ sep # join_with sep segs"

text \<open>
  \<open>yarl\<close>'s \<open>normalize_path_segments\<close>: \<open>..\<close> drops the segment before it (nothing, when
  there is none), \<open>.\<close> is dropped, and a path that ended in either keeps a trailing
  slash.
\<close>

fun resolve_segments :: "pystr list \<Rightarrow> pystr list \<Rightarrow> pystr list" where
  "resolve_segments resolved_path [] = resolved_path"
| "resolve_segments resolved_path (seg # segs) =
     (if seg = str ''..'' then resolve_segments (butlast resolved_path) segs
      else if seg \<noteq> str ''.'' then resolve_segments (resolved_path @ [seg]) segs
      else resolve_segments resolved_path segs)"

definition normalize_path_segments :: "pystr list \<Rightarrow> pystr list" where
  "normalize_path_segments segments =
     (let resolved_path = resolve_segments [] segments in
      if segments \<noteq> [] \<and> (last segments = str ''.'' \<or> last segments = str ''..'')
      then resolved_path @ [[]] else resolved_path)"

text \<open>
  \<open>url.joinpath(p, encoded=True)\<close> for an absolute \<open>url\<close> and one path \<open>p\<close>: a path that
  starts with a slash is refused; otherwise the segments of \<open>p\<close> are appended to those of
  the URL's path (without its trailing empty segment), the result is normalised, and a
  leading slash is kept. With \<open>encoded=True\<close> nothing is quoted. Origin and credentials
  stay as they are.
\<close>

definition joinpath_encoded :: "URL \<Rightarrow> pystr \<Rightarrow> error + URL" where
  "joinpath_encoded u p =
     (if p \<noteq> [] \<and> hd p = 47 then Inl ValueError
      else
        (let segments = split_on 47 p;
             old_segments = split_on 47 (raw_path u);
             kept = (if raw_path u = [] then []
                     else if last old_segments = [] then butlast old_segments
                     else old_segments);
             parsed = normalize_path_segments (kept @ segments);
             rooted = (if parsed \<noteq> [] \<and> hd parsed \<noteq> [] then [] # parsed else parsed)
         in Inr (URL (origin u) (url_auth u) (join_with 47 rooted))))"

datatype http_method = GET | POST | PUT | DELETE

text \<open>
  A request as the client hands it to its session: the method, the target
  \<open>self.url.joinpath(joined, encoded=encoded)\<close>, the \<open>params\<close> dictionary in order and
  the \<open>json\<close> body; and the Basic credentials with which the session sends it.
\<close>

record request =
  verb :: http_method
  base :: URL
  joined :: pystr
  encoded :: bool
  params :: "(pystr \<times> pystr) list"
  json_body :: "json option"
  credentials :: "BasicAuth option"

text \<open>
  A response: its HTTP status, and what \<open>await response.json()\<close> and
  \<open>await response.text()\<close> evaluate to on it (either may raise).
\<close>

record response =
  status :: nat
  json_result :: "error + json"
  text_result :: "error + pystr"

text \<open>
  What a session gets for a request that it has sent: a transport failure; a response,
  which it hands to its caller; or a redirect, that is a response with status 301, 302,
  303, 307 or 308 and a \<open>Location\<close> header. The client never passes \<open>allow_redirects\<close>,
  so \<open>aiohttp\<close> follows a redirect by itself: it sends further requests, which the client
  has no part in, until it has a response to hand over or fails. \<open>Followed further final\<close>
  is such a redirect, with the further requests and what they ended in.
\<close>

datatype reply = Failed | Response response | Followed "request list" "error + response"

text \<open>
  The network answers a request that a client has handed to its session, given the
  requests handed over before.
\<close>

type_synonym service = "request list \<Rightarrow> request \<Rightarrow> reply"

text \<open>
  What lies outside the repository: the service behind the network, and the built-in
  \<open>dict()\<close> applied to a JSON array or string (a sequence of key/value pairs).
\<close>

record env =
  service :: service
  dict_of_iterable :: "json \<Rightarrow> error + json"

section \<open>Sessions and clients\<close>

text \<open>
  An \<open>aiohttp.ClientSession\<close> is a mutable object: \<open>close()\<close> changes it for every
  holder of a reference. The world holds the sessions created so far, addressed by
  their index, the requests that clients have handed to their sessions so far, and the
  further requests that sessions have sent while following redirects.
\<close>

record ClientSession =
  closed :: bool
  auth :: "BasicAuth option"

record world =
  sessions :: "ClientSession list"
  wire :: "request list"
  followed :: "request list"

datatype pyclass = Hippo | AuthenticatedHippo

record client =
  cls :: pyclass
  url :: URL
  session :: nat

definition session_at :: "world \<Rightarrow> nat \<Rightarrow> ClientSession option" where
  "session_at w r = (if r < length (sessions w) then Some (sessions w ! r) else None)"

text \<open>\<open>ClientSession(auth=a, ...).__aenter__()\<close>: a new, open session.\<close>

definition ClientSession_new :: "BasicAuth option \<Rightarrow> world \<Rightarrow> nat \<times> world" where
  "ClientSession_new a w =
     (length (sessions w), w\<lparr>sessions := sessions w @ [\<lparr>closed = False, auth = a\<rparr>]\<rparr>)"

text \<open>
  The credentials with which a session sends a request to a URL. The client passes no
  \<open>auth\<close> with a request, so \<open>aiohttp\<close> takes the credentials written into the URL when
  there are any, and the default credentials of the session only when there are none.
\<close>

definition request_auth :: "URL \<Rightarrow> ClientSession \<Rightarrow> BasicAuth option" where
  "request_auth u s = (case url_auth u of Some a \<Rightarrow> Some a | None \<Rightarrow> auth s)"

text \<open>
  \<open>session.get/post/put/delete(target, params=..., json=...)\<close> entered with
  \<open>async with\<close>. A closed session raises \<open>RuntimeError\<close> (``Session is closed'')
  before anything is sent; otherwise the request goes out with the credentials of the
  URL or else of the session. A transport failure raises \<open>ClientError\<close>, a response is
  handed to the caller, and a redirect is followed: the further requests go out, and
  the caller gets what they ended in. A client without a session attribute raises
  \<open>AttributeError\<close>.
\<close>

definition session_request :: "service \<Rightarrow> nat \<Rightarrow> request \<Rightarrow> world \<Rightarrow> (error + response) \<times> world" where
  "session_request srv r rq w =
     (case session_at w r of
        None \<Rightarrow> (Inl AttributeError, w)
      | Some s \<Rightarrow>
          if closed s then (Inl RuntimeError, w)
          else
            (let sent = rq\<lparr>credentials := request_auth (base rq) s\<rparr> in
             (case srv (wire w) sent of
                Failed \<Rightarrow> (Inl ClientError, w\<lparr>wire := wire w @ [sent]\<rparr>)
              | Response resp \<Rightarrow> (Inr resp, w\<lparr>wire := wire w @ [sent]\<rparr>)
              | Followed further final \<Rightarrow>
                  (final, w\<lparr>wire := wire w @ [sent], followed := followed w @ further\<rparr>))))"

definition http :: "http_method \<Rightarrow> URL \<Rightarrow> pystr \<Rightarrow> bool \<Rightarrow> (pystr \<times> pystr) list \<Rightarrow> json option \<Rightarrow> request" where
  "http m u p enc ps body =
     \<lparr>verb = m, base = u, joined = p, encoded = enc, params = ps,
      json_body = body, credentials = None\<rparr>"

text \<open>The body of an \<open>async with ... as response:\<close> block that returns \<open>f response\<close>.\<close>

definition with_response :: "(error + response) \<times> world \<Rightarrow> (response \<Rightarrow> error + 'a) \<Rightarrow> (error + 'a) \<times> world" where
  "with_response rw f =
     (case fst rw of
        Inl e \<Rightarrow> (Inl e, snd rw)
      | Inr resp \<Rightarrow> (f resp, snd rw))"

text \<open>\<open>await response.text()\<close> with the result discarded: the method returns \<open>None\<close>.\<close>

definition discard_text :: "response \<Rightarrow> error + unit" where
  "discard_text resp = (case text_result resp of Inl e \<Rightarrow> Inl e | Inr _ \<Rightarrow> Inr ())"

section \<open>Decoding responses\<close>

text \<open>\<open>for x in v\<close> over a decoded JSON value.\<close>

definition py_iter :: "json \<Rightarrow> error + json list" where
  "py_iter v =
     (case v of
        JArray xs \<Rightarrow> Inr xs
      | JObject kvs \<Rightarrow> Inr (map (\<lambda>kv. JString (fst kv)) kvs)
      | JString s \<Rightarrow> Inr (map (\<lambda>c. JString [c]) s)
      | _ \<Rightarrow> Inl TypeError)"

text \<open>\<open>**v\<close>: only a mapping can be unpacked into keyword arguments.\<close>

definition kwargs :: "json \<Rightarrow> error + (pystr \<times> json) list" where
  "kwargs v = (case v of JObject kvs \<Rightarrow> Inr kvs | _ \<Rightarrow> Inl TypeError)"

text \<open>
  The pydantic models. Both fields of \<open>ApplicationInfo\<close> and the field of
  \<open>DatabaseInfo\<close> are required strings; other keys are ignored.
\<close>

definition ApplicationInfo_new :: "(pystr \<times> json) list \<Rightarrow> error + ApplicationInfo" where
  "ApplicationInfo_new kvs =
     (case (map_of kvs (str ''id''), map_of kvs (str ''name'')) of
        (Some (JString i), Some (JString n)) \<Rightarrow> Inr \<lparr>id' = i, name = n\<rparr>
      | _ \<Rightarrow> Inl ValidationError)"

definition DatabaseInfo_new :: "(pystr \<times> json) list \<Rightarrow> error + DatabaseInfo" where
  "DatabaseInfo_new kvs =
     (case map_of kvs (str ''path'') of
        Some (JString p) \<Rightarrow> Inr \<lparr>path = p\<rparr>
      | _ \<Rightarrow> Inl ValidationError)"

text \<open>\<open>ServerInfo(v)\<close>: a \<open>TypedDict\<close> is \<open>dict\<close> at run time.\<close>

definition ServerInfo :: "env \<Rightarrow> json \<Rightarrow> error + json" where
  "ServerInfo ev v =
     (case v of
        JObject kvs \<Rightarrow> Inr (JObject kvs)
      | JArray xs \<Rightarrow> dict_of_iterable ev v
      | JString s \<Rightarrow> dict_of_iterable ev v
      | _ \<Rightarrow> Inl TypeError)"

text \<open>A list comprehension whose element expression may raise.\<close>

fun comprehension :: "('a \<Rightarrow> error + 'b) \<Rightarrow> 'a list \<Rightarrow> error + 'b list" where
  "comprehension f [] = Inr []"
| "comprehension f (x # xs) =
     (case f x of
        Inl e \<Rightarrow> Inl e
      | Inr y \<Rightarrow>
          (case comprehension f xs of
             Inl e \<Rightarrow> Inl e
           | Inr ys \<Rightarrow> Inr (y # ys)))"

definition ApplicationInfo_of :: "json \<Rightarrow> error + ApplicationInfo" where
  "ApplicationInfo_of v = (case kwargs v of Inl e \<Rightarrow> Inl e | Inr kvs \<Rightarrow> ApplicationInfo_new kvs)"

definition DatabaseInfo_of :: "json \<Rightarrow> error + DatabaseInfo" where
  "DatabaseInfo_of v = (case kwargs v of Inl e \<Rightarrow> Inl e | Inr kvs \<Rightarrow> DatabaseInfo_new kvs)"

text \<open>\<open>str(b).lower()\<close> for a \<open>bool\<close>; \<open>lower\<close> is given on ASCII letters.\<close>

definition str_bool :: "bool \<Rightarrow> pystr" where
  "str_bool b = (if b then str ''True'' else str ''False'')"

definition lower :: "pystr \<Rightarrow> pystr" where
  "lower s = map (\<lambda>c. if 65 \<le> c \<and> c \<le> 90 then c + 32 else c) s"


section \<open>Construction\<close>

text \<open>
  \<open>Hippo.__init__(self, /, _is_from_internal=False)\<close>, inherited unchanged by
  \<open>AuthenticatedHippo\<close>. The argument is \<open>None\<close> when the caller omits it. Without the
  flag the body evaluates \<open>NotImplemented("...")\<close>; \<open>NotImplemented\<close> is not callable,
  so what is raised is \<open>TypeError\<close>. With the flag nothing is assigned: the attributes
  are set afterwards by \<open>create\<close>.
\<close>

definition Hippo_init :: "bool option \<Rightarrow> error + unit" where
  "Hippo_init is_from_internal_arg =
     (let is_from_internal = (case is_from_internal_arg of None \<Rightarrow> False | Some b \<Rightarrow> b)
      in if \<not> is_from_internal then Inl TypeError else Inr ())"

text \<open>\<open>cls(_is_from_internal=...)\<close> for either class: both run the same \<open>__init__\<close>.\<close>

definition construct :: "pyclass \<Rightarrow> bool option \<Rightarrow> error + unit" where
  "construct c is_from_internal_arg = Hippo_init is_from_internal_arg"

section \<open>The client operations\<close>

text \<open>
  \<open>Hippo.create(url)\<close> and \<open>AuthenticatedHippo.create(url, application, token)\<close>: the
  instance is made with the internal flag, then its \<open>url\<close> and a new session are
  assigned. \<open>BasicAuth(...)\<close> is evaluated before the session is created.
\<close>

definition Hippo_create :: "URL \<Rightarrow> world \<Rightarrow> (error + client) \<times> world" where
  "Hippo_create u w =
     (case construct Hippo (Some True) of
        Inl e \<Rightarrow> (Inl e, w)
      | Inr _ \<Rightarrow>
          (let made = ClientSession_new None w
           in (Inr \<lparr>cls = Hippo, url = u, session = fst made\<rparr>, snd made)))"

definition AuthenticatedHippo_create :: "URL \<Rightarrow> pystr \<Rightarrow> pystr \<Rightarrow> world \<Rightarrow> (error + client) \<times> world" where
  "AuthenticatedHippo_create u application token w =
     (case construct AuthenticatedHippo (Some True) of
        Inl e \<Rightarrow> (Inl e, w)
      | Inr _ \<Rightarrow>
          (case BasicAuth_new application token Utf8 of
             Inl e \<Rightarrow> (Inl e, w)
           | Inr a \<Rightarrow>
               (let made = ClientSession_new (Some a) w
                in (Inr \<lparr>cls = AuthenticatedHippo, url = u, session = fst made\<rparr>, snd made))))"

text \<open>\<open>close\<close>: \<open>await self.session.close()\<close>.\<close>

definition close :: "client \<Rightarrow> world \<Rightarrow> (error + unit) \<times> world" where
  "close self w =
     (case session_at w (session self) of
        None \<Rightarrow> (Inl AttributeError, w)
      | Some s \<Rightarrow>
          (Inr (), w\<lparr>sessions := (sessions w)[session self := s\<lparr>closed := True\<rparr>]\<rparr>))"

definition server_info :: "env \<Rightarrow> client \<Rightarrow> world \<Rightarrow> (error + json) \<times> world" where
  "server_info ev self w =
     with_response
       (session_request (service ev) (session self)
          (http GET (url self) (str ''api/'') False [] None) w)
       (\<lambda>resp. case json_result resp of Inl e \<Rightarrow> Inl e | Inr v \<Rightarrow> ServerInfo ev v)"

definition list_apps :: "env \<Rightarrow> client \<Rightarrow> world \<Rightarrow> (error + ApplicationInfo list) \<times> world" where
  "list_apps ev self w =
     with_response
       (session_request (service ev) (session self)
          (http GET (url self) (str ''api/apps'') False [] None) w)
       (\<lambda>resp. case json_result resp of
                  Inl e \<Rightarrow> Inl e
                | Inr v \<Rightarrow>
                    (case py_iter v of
                       Inl e \<Rightarrow> Inl e
                     | Inr apps \<Rightarrow> comprehension ApplicationInfo_of apps))"

definition new_app :: "env \<Rightarrow> client \<Rightarrow> pystr \<Rightarrow> world \<Rightarrow> (error + ApplicationInfo) \<times> world" where
  "new_app ev self app_name w =
     with_response
       (session_request (service ev) (session self)
          (http POST (url self) (str ''api/apps/new'') False [(str ''name'', app_name)] None) w)
       (\<lambda>resp. case json_result resp of Inl e \<Rightarrow> Inl e | Inr v \<Rightarrow> ApplicationInfo_of v)"

text \<open>
  \<open>new_token(application, writeable=False)\<close>; \<open>HippoToken(...)\<close> is the identity at
  run time, so the decoded JSON value is returned as it is.
\<close>

definition new_token :: "env \<Rightarrow> client \<Rightarrow> pystr \<Rightarrow> bool option \<Rightarrow> world \<Rightarrow> (error + json) \<times> world" where
  "new_token ev self application writeable_arg w =
     (let writeable = (case writeable_arg of None \<Rightarrow> False | Some b \<Rightarrow> b) in
      with_response
        (session_request (service ev) (session self)
           (http POST (url self) (str ''api/tokens/new'') False
              [(str ''app_id'', application), (str ''writeable'', lower (str_bool writeable))]
              None) w)
        json_result)"

definition authenticate :: "client \<Rightarrow> pystr \<Rightarrow> pystr \<Rightarrow> world \<Rightarrow> (error + client) \<times> world" where
  "authenticate self application token w =
     AuthenticatedHippo_create (url self) application token w"

definition delete_app :: "env \<Rightarrow> client \<Rightarrow> pystr \<Rightarrow> world \<Rightarrow> (error + unit) \<times> world" where
  "delete_app ev self application w =
     with_response
       (session_request (service ev) (session self)
          (http DELETE (url self) (str ''api/apps/delete'') False
             [(str ''app_id'', application)] None) w)
       discard_text"

definition delete_token :: "env \<Rightarrow> client \<Rightarrow> pystr \<Rightarrow> world \<Rightarrow> (error + unit) \<times> world" where
  "delete_token ev self token w =
     with_response
       (session_request (service ev) (session self)
          (http DELETE (url self) (str ''api/tokens/delete'') False
             [(str ''token_id'', token)] None) w)
       discard_text"

definition create_database :: "env \<Rightarrow> client \<Rightarrow> pystr \<Rightarrow> world \<Rightarrow> (error + DatabaseInfo) \<times> world" where
  "create_database ev self db_path w =
     with_response
       (session_request (service ev) (session self)
          (http POST (url self) (str ''api/create_db'') False [(str ''path'', db_path)] None) w)
       (\<lambda>resp. case json_result resp of Inl e \<Rightarrow> Inl e | Inr v \<Rightarrow> DatabaseInfo_of v)"

text \<open>
  The operations below compute their path argument first; an encoding error is raised
  before the session is used.
\<close>

definition on_path :: "error + pystr \<Rightarrow> world \<Rightarrow> (pystr \<Rightarrow> (error + 'a) \<times> world) \<Rightarrow> (error + 'a) \<times> world" where
  "on_path p w k = (case p of Inl e \<Rightarrow> (Inl e, w) | Inr target \<Rightarrow> k target)"

text \<open>\<open>list_dbs(path="/", recursive=False)\<close>.\<close>

definition list_dbs :: "env \<Rightarrow> client \<Rightarrow> pystr option \<Rightarrow> bool option \<Rightarrow> world \<Rightarrow> (error + DatabaseInfo list) \<times> world" where
  "list_dbs ev self path_arg recursive_arg w =
     (let db_path = (case path_arg of None \<Rightarrow> str ''/'' | Some p \<Rightarrow> p);
          recursive = (case recursive_arg of None \<Rightarrow> False | Some b \<Rightarrow> b)
      in on_path (encode_path_segment db_path) w
           (\<lambda>seg. with_response
              (session_request (service ev) (session self)
                 (http GET (url self) (str ''api/dbs/'' @ seg) True
                    [(str ''recursive'', lower (str_bool recursive))] None) w)
              (\<lambda>resp. case json_result resp of
                         Inl e \<Rightarrow> Inl e
                       | Inr v \<Rightarrow>
                           (case py_iter v of
                              Inl e \<Rightarrow> Inl e
                            | Inr dbs \<Rightarrow> comprehension DatabaseInfo_of dbs))))"

definition list_documents :: "env \<Rightarrow> client \<Rightarrow> pystr \<Rightarrow> world \<Rightarrow> (error + json) \<times> world" where
  "list_documents ev self db_path w =
     on_path (encode_path_segment db_path) w
       (\<lambda>seg. with_response
          (session_request (service ev) (session self)
             (http GET (url self) (str ''api/'' @ seg) True [] None) w)
          json_result)"

definition delete_database :: "env \<Rightarrow> client \<Rightarrow> pystr \<Rightarrow> world \<Rightarrow> (error + unit) \<times> world" where
  "delete_database ev self db_path w =
     on_path (encode_path_segment db_path) w
       (\<lambda>seg. with_response
          (session_request (service ev) (session self)
             (http DELETE (url self) (str ''api/'' @ seg) True [] None) w)
          discard_text)"

definition create_document :: "env \<Rightarrow> client \<Rightarrow> pystr \<Rightarrow> pystr \<Rightarrow> json \<Rightarrow> world \<Rightarrow> (error + json) \<times> world" where
  "create_document ev self database_path doc_name contents w =
     on_path (encode_path_segment database_path) w
       (\<lambda>seg. with_response
          (session_request (service ev) (session self)
             (http POST (url self) (str ''api/'' @ seg) True
                [(str ''document_name'', doc_name)] (Some contents)) w)
          json_result)"

definition read_document :: "env \<Rightarrow> client \<Rightarrow> pystr \<Rightarrow> pystr \<Rightarrow> world \<Rightarrow> (error + json) \<times> world" where
  "read_document ev self database_path doc_name w =
     on_path (document_path database_path doc_name) w
       (\<lambda>target. with_response
          (session_request (service ev) (session self)
             (http GET (url self) target True [] None) w)
          json_result)"

definition document_exists :: "env \<Rightarrow> client \<Rightarrow> pystr \<Rightarrow> pystr \<Rightarrow> world \<Rightarrow> (error + json) \<times> world" where
  "document_exists ev self database_path doc_name w =
     on_path (document_path database_path doc_name) w
       (\<lambda>target. with_response
          (session_request (service ev) (session self)
             (http GET (url self) (target @ str ''/exists'') True [] None) w)
          json_result)"

definition update_document :: "env \<Rightarrow> client \<Rightarrow> pystr \<Rightarrow> pystr \<Rightarrow> json \<Rightarrow> world \<Rightarrow> (error + unit) \<times> world" where
  "update_document ev self database_path doc_name contents w =
     on_path (document_path database_path doc_name) w
       (\<lambda>target. with_response
          (session_request (service ev) (session self)
             (http PUT (url self) target True [] (Some contents)) w)
          discard_text)"

definition delete_document :: "env \<Rightarrow> client \<Rightarrow> pystr \<Rightarrow> pystr \<Rightarrow> world \<Rightarrow> (error + unit) \<times> world" where
  "delete_document ev self database_path doc_name w =
     on_path (document_path database_path doc_name) w
       (\<lambda>target. with_response
          (session_request (service ev) (session self)
             (http DELETE (url self) target True [] None) w)
          discard_text)"

section \<open>Calling a method on a client\<close>

text \<open>
  One constructor per public method, with its arguments. \<open>AuthenticatedHippo\<close> inherits
  the methods of \<open>Hippo\<close>; a method that the class of the receiver does not have raises
  \<open>AttributeError\<close>.
\<close>

datatype call =
    Server_info
  | List_apps
  | New_app pystr
  | New_token pystr "bool option"
  | Authenticate pystr pystr
  | Close
  | Delete_app pystr
  | Delete_token pystr
  | Create_database pystr
  | List_dbs "pystr option" "bool option"
  | List_documents pystr
  | Delete_database pystr
  | Create_document pystr pystr json
  | Read_document pystr pystr
  | Document_exists pystr pystr
  | Update_document pystr pystr json
  | Delete_document pystr pystr

datatype outcome =
    Nothing
  | Json json
  | Application ApplicationInfo
  | Applications "ApplicationInfo list"
  | Database DatabaseInfo
  | Databases "DatabaseInfo list"
  | Client client

fun defined_on_Hippo :: "call \<Rightarrow> bool" where
  "defined_on_Hippo Server_info = True"
| "defined_on_Hippo List_apps = True"
| "defined_on_Hippo (New_app _) = True"
| "defined_on_Hippo (New_token _ _) = True"
| "defined_on_Hippo (Authenticate _ _) = True"
| "defined_on_Hippo Close = True"
| "defined_on_Hippo _ = False"

definition has_method :: "pyclass \<Rightarrow> call \<Rightarrow> bool" where
  "has_method c k = (c = AuthenticatedHippo \<or> defined_on_Hippo k)"

definition returning :: "('a \<Rightarrow> outcome) \<Rightarrow> (error + 'a) \<times> world \<Rightarrow> (error + outcome) \<times> world" where
  "returning f rw = (case fst rw of Inl e \<Rightarrow> Inl e | Inr x \<Rightarrow> Inr (f x), snd rw)"

definition invoke :: "env \<Rightarrow> client \<Rightarrow> call \<Rightarrow> world \<Rightarrow> (error + outcome) \<times> world" where
  "invoke ev self k w =
     (if \<not> has_method (cls self) k then (Inl AttributeError, w)
      else
        (case k of
           Server_info \<Rightarrow> returning Json (server_info ev self w)
         | List_apps \<Rightarrow> returning Applications (list_apps ev self w)
         | New_app n \<Rightarrow> returning Application (new_app ev self n w)
         | New_token a wr \<Rightarrow> returning Json (new_token ev self a wr w)
         | Authenticate a t \<Rightarrow> returning Client (authenticate self a t w)
         | Close \<Rightarrow> returning (\<lambda>_. Nothing) (close self w)
         | Delete_app a \<Rightarrow> returning (\<lambda>_. Nothing) (delete_app ev self a w)
         | Delete_token t \<Rightarrow> returning (\<lambda>_. Nothing) (delete_token ev self t w)
         | Create_database p \<Rightarrow> returning Database (create_database ev self p w)
         | List_dbs p r \<Rightarrow> returning Databases (list_dbs ev self p r w)
         | List_documents p \<Rightarrow> returning Json (list_documents ev self p w)
         | Delete_database p \<Rightarrow> returning (\<lambda>_. Nothing) (delete_database ev self p w)
         | Create_document p n c \<Rightarrow> returning Json (create_document ev self p n c w)
         | Read_document p n \<Rightarrow> returning Json (read_document ev self p n w)
         | Document_exists p n \<Rightarrow> returning Json (document_exists ev self p n w)
         | Update_document p n c \<Rightarrow> returning (\<lambda>_. Nothing) (update_document ev self p n c w)
         | Delete_document p n \<Rightarrow> returning (\<lambda>_. Nothing) (delete_document ev self p n w)))"

text \<open>A sequence of method calls, by any clients, one after the other.\<close>

fun run :: "env \<Rightarrow> (client \<times> call) list \<Rightarrow> world \<Rightarrow> world" where
  "run ev [] w = w"
| "run ev (step # steps) w = run ev steps (snd (invoke ev (fst step) (snd step) w))"

text \<open>
  The requests that one call hands to a session and the session sends. The further
  requests of a followed redirect are not among them.
\<close>

definition issued :: "env \<Rightarrow> client \<Rightarrow> call \<Rightarrow> world \<Rightarrow> request list" where
  "issued ev self k w = drop (length (wire w)) (wire (snd (invoke ev self k w)))"


text \<open>
  The same environment, with the status of every response that a session hands to its
  caller replaced by \<open>f\<close> of it.
\<close>

definition with_status :: "(nat \<Rightarrow> nat) \<Rightarrow> env \<Rightarrow> env" where
  "with_status f ev =
     ev\<lparr>service :=
          (\<lambda>h rq. case service ev h rq of
                     Failed \<Rightarrow> Failed
                   | Response resp \<Rightarrow> Response (resp\<lparr>status := f (status resp)\<rparr>)
                   | Followed further final \<Rightarrow>
                       Followed further
                         (case final of
                            Inl e \<Rightarrow> Inl e
                          | Inr resp \<Rightarrow> Inr (resp\<lparr>status := f (status resp)\<rparr>)))\<rparr>"

text \<open>The arguments of a call that are encoded as path segments.\<close>

fun path_arguments :: "call \<Rightarrow> pystr list" where
  "path_arguments (List_dbs None _) = [str ''/'']"
| "path_arguments (List_dbs (Some p) _) = [p]"
| "path_arguments (List_documents p) = [p]"
| "path_arguments (Delete_database p) = [p]"
| "path_arguments (Create_document p _ _) = [p]"
| "path_arguments (Read_document p n) = [p, n]"
| "path_arguments (Document_exists p n) = [p, n]"
| "path_arguments (Update_document p n _) = [p, n]"
| "path_arguments (Delete_document p n) = [p, n]"
| "path_arguments _ = []"

text \<open>The document address of the three calls that read, replace or delete a document.\<close>

fun document_call :: "call \<Rightarrow> (pystr \<times> pystr) option" where
  "document_call (Read_document p n) = Some (p, n)"
| "document_call (Update_document p n _) = Some (p, n)"
| "document_call (Delete_document p n) = Some (p, n)"
| "document_call _ = None"

section \<open>Concrete situations\<close>

text \<open>
  A world before any client exists, a base URL, and a service that answers every
  request with status 404 and a JSON error body.
\<close>

definition fresh :: world where
  "fresh = \<lparr>sessions = [], wire = [], followed = []\<rparr>"

definition localhost :: URL where
  "localhost = URL (str ''http://localhost:8000'') None (str ''/'')"

definition not_found :: env where
  "not_found =
     \<lparr>service =
        (\<lambda>h rq. Response
           \<lparr>status = 404,
            json_result = Inr (JObject [(str ''error'', JString (str ''not found''))]),
            text_result = Inr (str ''not found'')\<rparr>),
      dict_of_iterable = (\<lambda>v. Inl ValueError)\<rparr>"

text \<open>The base URL \<open>http://user:pw@localhost:8000/\<close>, which has credentials written into it.\<close>

definition localhost_userinfo :: URL where
  "localhost_userinfo =
     URL (str ''http://localhost:8000'')
       (Some \<lparr>login = str ''user'', password = str ''pw'', encoding = Latin1\<rparr>) (str ''/'')"

text \<open>A service that answers every request with status 200 and the same JSON object.\<close>

definition answering :: "json \<Rightarrow> env" where
  "answering v =
     \<lparr>service =
        (\<lambda>h rq. Response \<lparr>status = 200, json_result = Inr v, text_result = Inr []\<rparr>),
      dict_of_iterable = (\<lambda>v. Inl ValueError)\<rparr>"

section \<open>Properties of the path encoding\<close>

lemma reasm3: "c div 4096 * 4096 + c div 64 mod 64 * 64 + c mod 64 = (c::nat)"
proof -
  define d m q r where "d = c div 64" and "m = c mod 64" and "q = d div 64" and "r = d mod 64"
  have h1: "c = 64 * d + m" unfolding d_def m_def by simp
  have h2: "d = 64 * q + r" unfolding q_def r_def by simp
  have h3: "c div 4096 = q" unfolding q_def d_def by (simp add: div_mult2_eq)
  have "q * 4096 + r * 64 + m = c" using h1 h2 by linarith
  then show ?thesis unfolding h3 unfolding r_def m_def d_def .
qed

lemma reasm4: "c div 262144 * 262144 + c div 4096 mod 64 * 4096 + c div 64 mod 64 * 64 + c mod 64 = (c::nat)"
proof -
  define e q r t where "e = c div 4096" and "q = e div 64" and "r = e mod 64"
    and "t = c div 64 mod 64 * 64 + c mod 64"
  have h1: "e * 4096 + t = c" unfolding e_def t_def using reasm3 [of c] by (simp only: add.assoc)
  have h2: "e = 64 * q + r" unfolding q_def r_def by simp
  have h3: "c div 262144 = q" unfolding q_def e_def by (simp add: div_mult2_eq)
  have "q * 262144 + r * 4096 + t = c" using h1 h2 by linarith
  then show ?thesis unfolding h3 unfolding r_def t_def e_def by (simp only: add.assoc)
qed


lemma decode_utf8_char1:
  assumes "c < 0x80" "utf8_char c = Some bs"
  shows "decode_utf8 (bs @ rest) = map_option ((#) c) (decode_utf8 rest)"
proof -
  have bs: "bs = [c]" using assms by (simp add: utf8_char_def)
  show ?thesis unfolding bs using assms(1) by simp
qed

lemma decode_utf8_char2:
  assumes "\<not> c < 0x80" "c < 0x800" "utf8_char c = Some bs"
  shows "decode_utf8 (bs @ rest) = map_option ((#) c) (decode_utf8 rest)"
proof -
  have bs: "bs = [0xC0 + c div 64, 0x80 + c mod 64]"
    using assms by (simp add: utf8_char_def)
  have d: "c div 64 < 32" using assms(2) by simp
  show ?thesis
    unfolding bs using assms(1) d by (simp add: continuation_def)
qed

lemma decode_utf8_char3:
  assumes "\<not> c < 0x800" "c < 0x10000" "utf8_char c = Some bs"
  shows "decode_utf8 (bs @ rest) = map_option ((#) c) (decode_utf8 rest)"
proof -
  have ns: "\<not> (0xD800 \<le> c \<and> c \<le> 0xDFFF)"
    using assms by (auto simp add: utf8_char_def split: if_splits)
  have bs: "bs = [0xE0 + c div 4096, 0x80 + (c div 64) mod 64, 0x80 + c mod 64]"
    using assms ns by (simp add: utf8_char_def)
  have d: "c div 4096 < 16" using assms(2) by simp
  show ?thesis
    unfolding bs using assms(1) d ns by (simp add: continuation_def reasm3)
qed

lemma decode_utf8_char4:
  assumes "\<not> c < 0x10000" "utf8_char c = Some bs"
  shows "decode_utf8 (bs @ rest) = map_option ((#) c) (decode_utf8 rest)"
proof -
  have lt: "c < 0x110000"
    using assms by (auto simp add: utf8_char_def split: if_splits)
  have bs: "bs = [0xF0 + c div 262144, 0x80 + (c div 4096) mod 64,
              0x80 + (c div 64) mod 64, 0x80 + c mod 64]"
    using assms lt by (simp add: utf8_char_def)
  have d: "c div 262144 < 8" using lt by simp
  show ?thesis
    unfolding bs using assms(1) d lt by (simp add: continuation_def reasm4)
qed

lemma decode_utf8_char:
  "utf8_char c = Some bs \<Longrightarrow> decode_utf8 (bs @ rest) = map_option ((#) c) (decode_utf8 rest)"
  using decode_utf8_char1 decode_utf8_char2 decode_utf8_char3 decode_utf8_char4 by blast

lemma utf8_char_bytes: "utf8_char c = Some bs \<Longrightarrow> b \<in> set bs \<Longrightarrow> b < 256"
  by (auto simp: utf8_char_def split: if_splits)

lemma decode_encode_utf8: "encode_utf8 s = Inr bs \<Longrightarrow> decode_utf8 bs = Some s"
proof (induction s arbitrary: bs)
  case Nil
  then show ?case by simp
next
  case (Cons c cs)
  then obtain b r where b: "utf8_char c = Some b" and r: "encode_utf8 cs = Inr r"
    and bs: "bs = b @ r"
    by (auto split: option.splits sum.splits)
  show ?case unfolding bs using decode_utf8_char [OF b, of r] Cons.IH [OF r] by simp
qed

lemma encode_utf8_bytes: "encode_utf8 s = Inr bs \<Longrightarrow> b \<in> set bs \<Longrightarrow> b < 256"
proof (induction s arbitrary: bs)
  case Nil
  then show ?case by simp
next
  case (Cons c cs)
  then obtain b' r where b: "utf8_char c = Some b'" and r: "encode_utf8 cs = Inr r"
    and bs: "bs = b' @ r"
    by (auto split: option.splits sum.splits)
  show ?case using Cons.prems(2) Cons.IH [OF r] utf8_char_bytes [OF b] unfolding bs by auto
qed

lemma always_safe_ascii: "b \<in> set ALWAYS_SAFE \<Longrightarrow> b < 128 \<and> b \<noteq> 37 \<and> b \<noteq> 47"
  by (auto simp: ALWAYS_SAFE_def str_def)

lemma lt16_cases:
  "(d::nat) < 16 \<Longrightarrow> d = 0 \<or> d = 1 \<or> d = 2 \<or> d = 3 \<or> d = 4 \<or> d = 5 \<or> d = 6 \<or> d = 7
     \<or> d = 8 \<or> d = 9 \<or> d = 10 \<or> d = 11 \<or> d = 12 \<or> d = 13 \<or> d = 14 \<or> d = 15"
  by arith

lemma hex_upper_safe: "d < 16 \<Longrightarrow> hex_upper d \<in> set ALWAYS_SAFE"
  by (drule lt16_cases) (auto simp: hex_upper_def ALWAYS_SAFE_def str_def)

lemma unhex_hex_upper: "d < 16 \<Longrightarrow> unhex (hex_upper d) = Some d"
  by (auto simp: hex_upper_def unhex_def)

lemma utf8_char_ascii: "c < 128 \<Longrightarrow> utf8_char c = Some [c]"
  by (simp add: utf8_char_def)

lemma encode_utf8_ascii: "\<forall>c\<in>set s. c < 128 \<Longrightarrow> encode_utf8 s = Inr s"
  by (induction s) (simp_all add: utf8_char_ascii)

lemma percent_bytes_literal:
  "c < 128 \<Longrightarrow> c \<noteq> 37 \<Longrightarrow> percent_bytes (c # rest) = map_option ((#) c) (percent_bytes rest)"
  by (cases "percent_bytes rest") (simp_all add: utf8_char_ascii)

lemma percent_bytes_hex:
  "unhex h = Some a \<Longrightarrow> unhex l = Some b \<Longrightarrow>
   percent_bytes (37 # h # l # rest) = map_option ((#) (a * 16 + b)) (percent_bytes rest)"
  by simp

lemma percent_bytes_quoter:
  assumes "b < 256"
  shows "percent_bytes (quoter ALWAYS_SAFE b @ rest) = map_option ((#) b) (percent_bytes rest)"
proof (cases "b \<in> set ALWAYS_SAFE")
  case True
  then have a: "b < 128" "b \<noteq> 37" using always_safe_ascii by auto
  have q: "quoter ALWAYS_SAFE b @ rest = b # rest"
    using True by (simp add: quoter_def)
  show ?thesis unfolding q by (rule percent_bytes_literal [OF a])
next
  case False
  have h: "b div 16 < 16" "b mod 16 < 16" using assms by simp_all
  have q: "quoter ALWAYS_SAFE b @ rest = 37 # hex_upper (b div 16) # hex_upper (b mod 16) # rest"
    using False by (simp add: quoter_def)
  have r: "b div 16 * 16 + b mod 16 = b" by simp
  show ?thesis
    unfolding q percent_bytes_hex [OF unhex_hex_upper [OF h(1)] unhex_hex_upper [OF h(2)]] r ..
qed


lemma percent_bytes_quoted:
  "\<forall>b\<in>set bs. b < 256 \<Longrightarrow> percent_bytes (concat (map (quoter ALWAYS_SAFE) bs)) = Some bs"
  by (induction bs) (simp_all add: percent_bytes_quoter)

lemma quoter_safe_id: "\<forall>b\<in>set bs. b \<in> set safe \<Longrightarrow> concat (map (quoter safe) bs) = bs"
  by (induction bs) (simp_all add: quoter_def)

lemma quote_from_bytes_empty_safe:
  "quote_from_bytes bs [] = concat (map (quoter ALWAYS_SAFE) bs)"
  by (simp add: quote_from_bytes_def list_all_iff quoter_safe_id)


lemma quote_Inr:
  "quote s [] = Inr q \<longleftrightarrow>
   (\<exists>bs. encode_utf8 s = Inr bs \<and> q = concat (map (quoter ALWAYS_SAFE) bs))"
proof (cases "s = []")
  case True
  then show ?thesis by (auto simp: quote_def)
next
  case False
  then show ?thesis
    by (cases "encode_utf8 s") (auto simp: quote_def quote_from_bytes_empty_safe)
qed

lemma percent_decode_quote:
  assumes "quote s [] = Inr q"
  shows "percent_decode q = Some s"
proof -
  obtain bs where bs: "encode_utf8 s = Inr bs" and q: "q = concat (map (quoter ALWAYS_SAFE) bs)"
    using assms unfolding quote_Inr by blast
  have "\<forall>b\<in>set bs. b < 256" using encode_utf8_bytes [OF bs] by blast
  then have "percent_bytes q = Some bs" unfolding q by (rule percent_bytes_quoted)
  then show ?thesis by (simp add: percent_decode_def decode_encode_utf8 [OF bs])
qed

lemma quoter_chars: "b < 256 \<Longrightarrow> set (quoter ALWAYS_SAFE b) \<subseteq> set ALWAYS_SAFE \<union> {37}"
  by (simp add: quoter_def hex_upper_safe)

lemma quote_chars:
  assumes "quote s [] = Inr q"
  shows "set q \<subseteq> set ALWAYS_SAFE \<union> {37}"
proof -
  obtain bs where bs: "encode_utf8 s = Inr bs" and q: "q = concat (map (quoter ALWAYS_SAFE) bs)"
    using assms unfolding quote_Inr by blast
  have "\<forall>b\<in>set bs. set (quoter ALWAYS_SAFE b) \<subseteq> set ALWAYS_SAFE \<union> {37}"
    using encode_utf8_bytes [OF bs] quoter_chars by blast
  then show ?thesis unfolding q by auto
qed

lemma quote_chars_ascii:
  assumes "quote s [] = Inr q" "c \<in> set q"
  shows "c < 128 \<and> c \<noteq> 47"
proof -
  have "c \<in> set ALWAYS_SAFE \<or> c = 37" using quote_chars [OF assms(1)] assms(2) by blast
  then show ?thesis using always_safe_ascii [of c] by auto
qed

lemma utf8_char_scalar:
  assumes "unicode_scalar c"
  shows "\<exists>bs. utf8_char c = Some bs"
proof -
  have a: "\<not> (0xD800 \<le> c \<and> c \<le> 0xDFFF)" "c < 0x110000"
    using assms unfolding unicode_scalar_def by linarith+
  show ?thesis unfolding utf8_char_def using a by simp
qed

lemma encode_utf8_scalar: "\<forall>c\<in>set s. unicode_scalar c \<Longrightarrow> \<exists>bs. encode_utf8 s = Inr bs"
proof (induction s)
  case Nil
  then show ?case by simp
next
  case (Cons c cs)
  then obtain b r where "utf8_char c = Some b" "encode_utf8 cs = Inr r"
    using utf8_char_scalar [of c] by auto
  then show ?case by simp
qed

lemma quote_scalar: "\<forall>c\<in>set s. unicode_scalar c \<Longrightarrow> \<exists>q. quote s [] = Inr q"
  using encode_utf8_scalar [of s] by (auto simp: quote_def)

lemma quote_ascii: "\<forall>c\<in>set s. c < 128 \<Longrightarrow> \<exists>q. quote s [] = Inr q"
  by (auto simp: quote_def encode_utf8_ascii)

lemma encode_path_segment_Inr:
  "encode_path_segment s = Inr r \<longleftrightarrow> (\<exists>q. quote s [] = Inr q \<and> quote q [] = Inr r)"
  by (cases "quote s []") (auto simp: encode_path_segment_def)

lemma service_decode_encoded:
  assumes "encode_path_segment s = Inr r"
  shows "service_decode r = Some s"
proof -
  obtain q where q: "quote s [] = Inr q" and r: "quote q [] = Inr r"
    using assms unfolding encode_path_segment_Inr by blast
  show ?thesis
    by (simp add: service_decode_def percent_decode_quote [OF r] percent_decode_quote [OF q])
qed

lemma encode_path_segment_total:
  assumes "\<forall>c\<in>set s. unicode_scalar c"
  shows "\<exists>r. encode_path_segment s = Inr r"
proof -
  obtain q where q: "quote s [] = Inr q" using quote_scalar [OF assms] by blast
  have "\<forall>c\<in>set q. c < 128" using quote_chars_ascii [OF q] by blast
  then obtain r where "quote q [] = Inr r" using quote_ascii by blast
  then show ?thesis using q unfolding encode_path_segment_Inr by blast
qed



lemma percent_not_safe: "37 \<notin> set ALWAYS_SAFE"
  using always_safe_ascii by blast

lemma quoter_percent: "quoter ALWAYS_SAFE 37 = str ''%25''"
  using percent_not_safe by (simp add: quoter_def hex_upper_def str_def)

lemma quoter_escape:
  assumes "c \<in> set ALWAYS_SAFE \<union> {37}"
  shows "quoter ALWAYS_SAFE c = (if c = 37 then str ''%25'' else [c])"
proof (cases "c = 37")
  case True
  then show ?thesis by (simp add: quoter_percent)
next
  case False
  then have "c \<in> set ALWAYS_SAFE" using assms by simp
  then show ?thesis using False by (simp add: quoter_def)
qed

lemma quote_escape_percent:
  "set q \<subseteq> set ALWAYS_SAFE \<union> {37} \<Longrightarrow>
   concat (map (quoter ALWAYS_SAFE) q) = escape_percent q"
proof (induction q)
  case Nil
  then show ?case by (simp add: escape_percent_def)
next
  case (Cons c cs)
  have c: "c \<in> set ALWAYS_SAFE \<union> {37}" using Cons.prems by simp
  have "concat (map (quoter ALWAYS_SAFE) cs) = escape_percent cs"
    using Cons by simp
  then show ?case
    by (simp add: escape_percent_def quoter_escape [OF c] del: Un_insert_right)
qed

lemma encode_path_segment_twice:
  assumes "encode_path_segment s = Inr r"
  shows "\<exists>q. quote s [] = Inr q \<and> r = escape_percent q"
proof -
  obtain q where q: "quote s [] = Inr q" and r: "quote q [] = Inr r"
    using assms unfolding encode_path_segment_Inr by blast
  have a: "\<forall>c\<in>set q. c < 128" using quote_chars_ascii [OF q] by blast
  obtain bs where bs: "encode_utf8 q = Inr bs" and r': "r = concat (map (quoter ALWAYS_SAFE) bs)"
    using r unfolding quote_Inr by blast
  have "bs = q" using bs encode_utf8_ascii [OF a] by simp
  then have "r = escape_percent q"
    using r' quote_escape_percent [OF quote_chars [OF q]] by simp
  then show ?thesis using q by blast
qed

lemma encode_path_segment_no_slash:
  assumes "encode_path_segment s = Inr r"
  shows "47 \<notin> set r"
proof -
  obtain q where "quote q [] = Inr r"
    using assms unfolding encode_path_segment_Inr by blast
  then show ?thesis using quote_chars_ascii by blast
qed

lemma split_at_slash:
  assumes "a @ (47::nat) # b = c @ 47 # d" "47 \<notin> set a" "47 \<notin> set c"
  shows "a = c \<and> b = d"
  using assms
proof (induction a arbitrary: c)
  case Nil
  then show ?case by (cases c) auto
next
  case (Cons x xs)
  then show ?case by (cases c) auto
qed

lemma encode_path_segment_inj:
  assumes "encode_path_segment s = Inr r" "encode_path_segment t = Inr r"
  shows "s = t"
  using service_decode_encoded [OF assms(1)] service_decode_encoded [OF assms(2)] by simp

lemma document_path_Inr:
  "document_path db nm = Inr p \<longleftrightarrow>
   (\<exists>d n. encode_path_segment db = Inr d \<and> encode_path_segment nm = Inr n
      \<and> p = str ''api/'' @ d @ str ''/'' @ n)"
  by (cases "encode_path_segment db"; cases "encode_path_segment nm")
     (auto simp: document_path_def)


section \<open>Properties of sessions and calls\<close>

lemma snd_returning [simp]: "snd (returning f rw) = snd rw"
  by (simp add: returning_def)

lemma fst_returning: "fst (returning f rw) = (case fst rw of Inl e \<Rightarrow> Inl e | Inr x \<Rightarrow> Inr (f x))"
  by (simp add: returning_def)

lemma snd_with_response [simp]: "snd (with_response rw f) = snd rw"
  by (cases "fst rw") (simp_all add: with_response_def)

lemma fst_with_response:
  "fst (with_response rw f) = (case fst rw of Inl e \<Rightarrow> Inl e | Inr resp \<Rightarrow> f resp)"
  by (cases "fst rw") (simp_all add: with_response_def)

lemma session_request_closed:
  "session_at w r = Some s \<Longrightarrow> closed s \<Longrightarrow> session_request srv r rq w = (Inl RuntimeError, w)"
  by (simp add: session_request_def)

lemma session_request_open:
  "session_at w r = Some s \<Longrightarrow> \<not> closed s \<Longrightarrow>
   session_request srv r rq w =
     (case srv (wire w) (rq\<lparr>credentials := request_auth (base rq) s\<rparr>) of
        Failed \<Rightarrow>
          (Inl ClientError,
           w\<lparr>wire := wire w @ [rq\<lparr>credentials := request_auth (base rq) s\<rparr>]\<rparr>)
      | Response resp \<Rightarrow>
          (Inr resp,
           w\<lparr>wire := wire w @ [rq\<lparr>credentials := request_auth (base rq) s\<rparr>]\<rparr>)
      | Followed further final \<Rightarrow>
          (final,
           w\<lparr>wire := wire w @ [rq\<lparr>credentials := request_auth (base rq) s\<rparr>],
             followed := followed w @ further\<rparr>))"
  by (simp add: session_request_def Let_def)


lemma wire_session_request:
  "wire (snd (session_request srv r rq w)) =
     (case session_at w r of
        None \<Rightarrow> wire w
      | Some s \<Rightarrow>
          if closed s then wire w
          else wire w @ [rq\<lparr>credentials := request_auth (base rq) s\<rparr>])"
  by (simp add: session_request_def Let_def split: option.splits reply.splits)

lemma base_http [simp]: "base (http m u p enc ps body) = u"
  by (simp add: http_def)

lemmas op_defs = server_info_def list_apps_def new_app_def new_token_def delete_app_def
  delete_token_def create_database_def list_dbs_def list_documents_def delete_database_def
  create_document_def read_document_def document_exists_def update_document_def
  delete_document_def

lemma snd_on_path: "snd (on_path p w k) = (case p of Inl e \<Rightarrow> w | Inr t \<Rightarrow> snd (k t))"
  by (simp add: on_path_def split: sum.splits)

lemma snd_invoke_request:
  assumes "k \<noteq> Close" "\<forall>a t. k \<noteq> Authenticate a t"
  shows "snd (invoke ev self k w) = w
         \<or> (\<exists>m p enc ps body.
                snd (invoke ev self k w)
                = snd (session_request (service ev) (session self)
                         (http m (url self) p enc ps body) w))"
  using assms
  by (cases k)
     (simp_all add: invoke_def op_defs snd_on_path Let_def split: sum.splits, blast+)

lemma encode_utf8_error: "encode_utf8 s = Inl e \<Longrightarrow> e = UnicodeEncodeError"
  by (induction s) (auto split: option.splits sum.splits)

lemma quote_error: "quote s safe = Inl e \<Longrightarrow> e = UnicodeEncodeError"
  by (auto simp: quote_def encode_utf8_error split: if_splits sum.splits)

lemma encode_path_segment_error: "encode_path_segment s = Inl e \<Longrightarrow> e = UnicodeEncodeError"
  by (auto simp: encode_path_segment_def quote_error split: sum.splits)

lemma document_path_error: "document_path d n = Inl e \<Longrightarrow> e = UnicodeEncodeError"
  by (auto simp: document_path_def encode_path_segment_error split: sum.splits)

lemma document_path_total:
  assumes "\<forall>c\<in>set d. unicode_scalar c" "\<forall>c\<in>set n. unicode_scalar c"
  shows "\<exists>p. document_path d n = Inr p"
  using encode_path_segment_total [OF assms(1)] encode_path_segment_total [OF assms(2)]
  by (auto simp: document_path_def)

lemma with_response_closed:
  "session_at w r = Some s \<Longrightarrow> closed s \<Longrightarrow>
   with_response (session_request srv r rq w) f = (Inl RuntimeError, w)"
  by (simp add: session_request_closed with_response_def)

lemma on_path_closed:
  assumes "\<And>t. k t = (Inl RuntimeError, w)" "\<And>e. p = Inl e \<Longrightarrow> e = UnicodeEncodeError"
  shows "on_path p w k = (Inl RuntimeError, w) \<or> on_path p w k = (Inl UnicodeEncodeError, w)"
  using assms by (cases p) (auto simp: on_path_def)

lemma on_path_Inr: "p = Inr t \<Longrightarrow> on_path p w k = k t"
  by (simp add: on_path_def)

lemma returning_Inl [simp]: "returning f (Inl e, w) = (Inl e, w)"
  by (simp add: returning_def)

lemma invoke_closed:
  assumes s: "session_at w (session self) = Some s" "closed s"
    and k: "k \<noteq> Close" "\<forall>a t. k \<noteq> Authenticate a t"
  shows "invoke ev self k w = (Inl RuntimeError, w)
         \<or> invoke ev self k w = (Inl UnicodeEncodeError, w)
         \<or> invoke ev self k w = (Inl AttributeError, w)"
proof (cases "has_method (cls self) k")
  case False
  then show ?thesis by (simp add: invoke_def)
next
  case True
  note c = with_response_closed [OF s]
  show ?thesis
    using k True
    by (cases k) (auto simp: invoke_def op_defs c Let_def on_path_def
        dest: encode_path_segment_error document_path_error split: sum.splits)
qed

lemma invoke_closed_encodable:
  assumes s: "session_at w (session self) = Some s" "closed s"
    and k: "k \<noteq> Close" "\<forall>a t. k \<noteq> Authenticate a t"
    and m: "has_method (cls self) k"
    and a: "list_all (list_all unicode_scalar) (path_arguments k)"
  shows "invoke ev self k w = (Inl RuntimeError, w)"
proof -
  note c = with_response_closed [OF s]
  have e: "\<And>q. list_all unicode_scalar q \<Longrightarrow> \<exists>r. encode_path_segment q = Inr r"
    using encode_path_segment_total by (simp add: list_all_iff)
  have d: "\<And>q n. list_all unicode_scalar q \<Longrightarrow> list_all unicode_scalar n
             \<Longrightarrow> \<exists>r. document_path q n = Inr r"
    using document_path_total by (simp add: list_all_iff)
  have slash: "list_all unicode_scalar (str ''/'')"
    by (simp add: str_def unicode_scalar_def)
  show ?thesis
  proof (cases k)
    case (List_dbs po ro)
    have "list_all unicode_scalar (case po of None \<Rightarrow> str ''/'' | Some q \<Rightarrow> q)"
      using a slash unfolding List_dbs by (cases po) simp_all
    then obtain r where "encode_path_segment (case po of None \<Rightarrow> str ''/'' | Some q \<Rightarrow> q) = Inr r"
      using e by blast
    then show ?thesis
      using m unfolding List_dbs
      by (simp add: invoke_def list_dbs_def c Let_def on_path_def)
  next
    case (List_documents q)
    then show ?thesis using m a e [of q]
      by (auto simp: invoke_def op_defs c Let_def on_path_def)
  next
    case (Delete_database q)
    then show ?thesis using m a e [of q]
      by (auto simp: invoke_def op_defs c Let_def on_path_def)
  next
    case (Create_document q n j)
    then show ?thesis using m a e [of q]
      by (auto simp: invoke_def op_defs c Let_def on_path_def)
  next
    case (Read_document q n)
    then show ?thesis using m a d [of q n]
      by (auto simp: invoke_def op_defs c Let_def on_path_def)
  next
    case (Document_exists q n)
    then show ?thesis using m a d [of q n]
      by (auto simp: invoke_def op_defs c Let_def on_path_def)
  next
    case (Update_document q n j)
    then show ?thesis using m a d [of q n]
      by (auto simp: invoke_def op_defs c Let_def on_path_def)
  next
    case (Delete_document q n)
    then show ?thesis using m a d [of q n]
      by (auto simp: invoke_def op_defs c Let_def on_path_def)
  qed (use k m in \<open>auto simp: invoke_def op_defs c Let_def\<close>)
qed

lemma close_closes:
  "session_at w (session self) = Some s \<Longrightarrow>
   session_at (snd (close self w)) (session self) = Some (s\<lparr>closed := True\<rparr>)"
  by (auto simp: close_def session_at_def split: if_splits)

lemma Hippo_create_fresh:
  "Hippo_create localhost fresh =
     (Inr \<lparr>cls = Hippo, url = localhost, session = 0\<rparr>,
      \<lparr>sessions = [\<lparr>closed = False, auth = None\<rparr>], wire = [], followed = []\<rparr>)"
  by (simp add: Hippo_create_def construct_def Hippo_init_def ClientSession_new_def fresh_def)

lemma close_created:
  "snd (close \<lparr>cls = Hippo, url = localhost, session = 0\<rparr>
          \<lparr>sessions = [\<lparr>closed = False, auth = None\<rparr>], wire = [], followed = []\<rparr>)
   = \<lparr>sessions = [\<lparr>closed = True, auth = None\<rparr>], wire = [], followed = []\<rparr>"
  by (simp add: close_def session_at_def)

lemma dict_with_status [simp]: "dict_of_iterable (with_status f ev) = dict_of_iterable ev"
  by (simp add: with_status_def)



lemma json_result_status: "json_result (resp\<lparr>status := n\<rparr>) = json_result resp"
  by simp


lemma AuthenticatedHippo_create_fresh:
  "AuthenticatedHippo_create localhost (str ''app'') (str ''token'') fresh =
     (Inr \<lparr>cls = AuthenticatedHippo, url = localhost, session = 0\<rparr>,
      \<lparr>sessions = [\<lparr>closed = False,
                     auth = Some \<lparr>login = str ''app'', password = str ''token'', encoding = Utf8\<rparr>\<rparr>],
       wire = [], followed = []\<rparr>)"
  by (simp add: AuthenticatedHippo_create_def construct_def Hippo_init_def BasicAuth_new_def
      ClientSession_new_def fresh_def str_def)



lemma sessions_session_request [simp]:
  "sessions (snd (session_request srv r rq w)) = sessions w"
  by (simp add: session_request_def Let_def split: option.splits reply.splits)

lemma invoke_auth:
  assumes "r < length (sessions w)"
  shows "r < length (sessions (snd (invoke ev self k w)))
         \<and> auth (sessions (snd (invoke ev self k w)) ! r) = auth (sessions w ! r)"
proof (cases "k = Close \<or> (\<exists>a t. k = Authenticate a t)")
  case False
  then have "snd (invoke ev self k w) = w
     \<or> (\<exists>rq. snd (invoke ev self k w) = snd (session_request (service ev) (session self) rq w))"
    using snd_invoke_request [of k ev self w] by blast
  then show ?thesis using assms by auto
next
  case True
  then show ?thesis
  proof
    assume "k = Close"
    then show ?thesis
      using assms
      by (auto simp: invoke_def close_def session_at_def nth_list_update split: if_splits)
  next
    assume "\<exists>a t. k = Authenticate a t"
    then obtain a t where "k = Authenticate a t" by blast
    then show ?thesis
      using assms
      by (auto simp: invoke_def authenticate_def AuthenticatedHippo_create_def construct_def
          Hippo_init_def BasicAuth_new_def ClientSession_new_def nth_append Let_def
          split: sum.splits if_splits)
  qed
qed

lemma run_auth:
  "r < length (sessions w) \<Longrightarrow>
   r < length (sessions (run ev steps w)) \<and> auth (sessions (run ev steps w) ! r) = auth (sessions w ! r)"
proof (induction steps arbitrary: w)
  case Nil
  then show ?case by simp
next
  case (Cons step steps)
  have a: "r < length (sessions (snd (invoke ev (fst step) (snd step) w)))"
    and b: "auth (sessions (snd (invoke ev (fst step) (snd step) w)) ! r) = auth (sessions w ! r)"
    using invoke_auth [OF Cons.prems] by auto
  show ?case using Cons.IH [OF a] b by simp
qed

lemma run_append: "run ev (xs @ ys) w = run ev ys (run ev xs w)"
  by (induction xs arbitrary: w) simp_all

lemma issued_session_request:
  assumes "snd (invoke ev self k w) = snd (session_request srv (session self) rq0 w)"
    and "rq \<in> set (issued ev self k w)"
  shows "session self < length (sessions w)
         \<and> credentials rq = request_auth (base rq0) (sessions w ! session self)"
proof (cases "session_at w (session self)")
  case None
  then show ?thesis using assms by (simp add: issued_def wire_session_request)
next
  case (Some s)
  then have s: "session self < length (sessions w)" "s = sessions w ! session self"
    by (auto simp: session_at_def split: if_splits)
  show ?thesis
  proof (cases "closed s")
    case True
    then show ?thesis using assms Some by (simp add: issued_def wire_session_request)
  next
    case False
    then have "issued ev self k w = [rq0\<lparr>credentials := request_auth (base rq0) s\<rparr>]"
      using assms(1) Some by (simp add: issued_def wire_session_request)
    then show ?thesis using assms(2) s by auto
  qed
qed

lemma invoke_issued:
  assumes "rq \<in> set (issued ev self k w)"
  shows "session self < length (sessions w)
         \<and> credentials rq = request_auth (url self) (sessions w ! session self)"
proof (cases "k = Close \<or> (\<exists>a t. k = Authenticate a t)")
  case False
  then have "snd (invoke ev self k w) = w
     \<or> (\<exists>rq0. base rq0 = url self
            \<and> snd (invoke ev self k w) = snd (session_request (service ev) (session self) rq0 w))"
    using snd_invoke_request [of k ev self w] base_http by metis
  then show ?thesis
  proof
    assume "snd (invoke ev self k w) = w"
    then show ?thesis using assms by (simp add: issued_def)
  next
    assume "\<exists>rq0. base rq0 = url self
              \<and> snd (invoke ev self k w) = snd (session_request (service ev) (session self) rq0 w)"
    then obtain rq0 where b: "base rq0 = url self"
      and s: "snd (invoke ev self k w) = snd (session_request (service ev) (session self) rq0 w)"
      by blast
    show ?thesis using issued_session_request [OF s assms] b by simp
  qed
next
  case True
  then have "wire (snd (invoke ev self k w)) = wire w"
    by (auto simp: invoke_def close_def authenticate_def AuthenticatedHippo_create_def
        construct_def Hippo_init_def BasicAuth_new_def ClientSession_new_def Let_def
        split: sum.splits option.splits)
  then show ?thesis using assms by (simp add: issued_def)
qed

lemma created_credentials:
  assumes "session c < length (sessions w)"
    and "rq \<in> set (issued ev c k (run ev steps w))"
  shows "credentials rq
         = (case url_auth (url c) of None \<Rightarrow> auth (sessions w ! session c) | Some e \<Rightarrow> Some e)"
  using invoke_issued [OF assms(2)] run_auth [OF assms(1), of ev steps]
  by (simp add: request_auth_def split: option.splits)

lemma Hippo_create_Inr:
  assumes "Hippo_create u w = (Inr c, w')"
  shows "c = \<lparr>cls = Hippo, url = u, session = length (sessions w)\<rparr>
         \<and> w' = w\<lparr>sessions := sessions w @ [\<lparr>closed = False, auth = None\<rparr>]\<rparr>"
  using assms
  by (auto simp: Hippo_create_def construct_def Hippo_init_def ClientSession_new_def Let_def)

lemma AuthenticatedHippo_create_Inr:
  assumes "AuthenticatedHippo_create u a t w = (Inr c, w')"
  shows "c = \<lparr>cls = AuthenticatedHippo, url = u, session = length (sessions w)\<rparr>
         \<and> w' = w\<lparr>sessions := sessions w @
                   [\<lparr>closed = False, auth = Some \<lparr>login = a, password = t, encoding = Utf8\<rparr>\<rparr>]\<rparr>"
  using assms
  by (auto simp: AuthenticatedHippo_create_def construct_def Hippo_init_def BasicAuth_new_def
      ClientSession_new_def Let_def split: if_splits)

lemma session_client_credentials:
  assumes "Hippo_create u w = (Inr c, w')" "rq \<in> set (issued ev c k (run ev steps w'))"
  shows "credentials rq = url_auth u"
proof -
  have c: "session c < length (sessions w')" "auth (sessions w' ! session c) = None" "url c = u"
    using Hippo_create_Inr [OF assms(1)] by (simp_all add: nth_append)
  show ?thesis using created_credentials [OF c(1) assms(2)] c(2,3)
    by (simp split: option.splits)
qed

lemma authenticated_client_credentials:
  assumes "AuthenticatedHippo_create u a t w = (Inr c, w')"
    and "rq \<in> set (issued ev c k (run ev steps w'))"
  shows "credentials rq
         = (case url_auth u of
              None \<Rightarrow> Some \<lparr>login = a, password = t, encoding = Utf8\<rparr>
            | Some e \<Rightarrow> Some e)"
proof -
  have c: "session c < length (sessions w')"
    "auth (sessions w' ! session c) = Some \<lparr>login = a, password = t, encoding = Utf8\<rparr>"
    "url c = u"
    using AuthenticatedHippo_create_Inr [OF assms(1)] by (simp_all add: nth_append)
  show ?thesis using created_credentials [OF c(1) assms(2)] c(2,3)
    by (simp split: option.splits)
qed

lemma invoke_Authenticate:
  "snd (invoke ev s (Authenticate a t) w) = snd (authenticate s a t w)"
  by (simp add: invoke_def has_method_def)

lemma two_authenticated_clients:
  assumes 1: "authenticate s a1 t1 v0 = (Inr c1, v1)"
    and 2: "authenticate s a2 t2 (run ev mid v1) = (Inr c2, v2)"
  shows "session c1 \<noteq> session c2
         \<and> (\<forall>later k q. q \<in> set (issued ev c1 k (run ev later v2)) \<longrightarrow>
               credentials q
               = (case url_auth (url s) of
                    None \<Rightarrow> Some \<lparr>login = a1, password = t1, encoding = Utf8\<rparr>
                  | Some e \<Rightarrow> Some e))
         \<and> (\<forall>later k q. q \<in> set (issued ev c2 k (run ev later v2)) \<longrightarrow>
               credentials q
               = (case url_auth (url s) of
                    None \<Rightarrow> Some \<lparr>login = a2, password = t2, encoding = Utf8\<rparr>
                  | Some e \<Rightarrow> Some e))"
proof -
  have c1: "session c1 = length (sessions v0)" "session c1 < length (sessions v1)"
    using AuthenticatedHippo_create_Inr [OF 1 [unfolded authenticate_def]] by simp_all
  have c2: "session c2 = length (sessions (run ev mid v1))"
    using AuthenticatedHippo_create_Inr [OF 2 [unfolded authenticate_def]] by simp
  have "session c1 < length (sessions (run ev mid v1))"
    using run_auth [OF c1(2)] by simp
  then have d: "session c1 \<noteq> session c2" using c2 by simp
  have v2: "v2 = run ev (mid @ [(s, Authenticate a2 t2)]) v1"
    using 2 by (simp add: run_append invoke_Authenticate)
  have a: "credentials q
           = (case url_auth (url s) of
                None \<Rightarrow> Some \<lparr>login = a1, password = t1, encoding = Utf8\<rparr>
              | Some e \<Rightarrow> Some e)"
    if "q \<in> set (issued ev c1 k (run ev later v2))" for later k q
  proof -
    have "q \<in> set (issued ev c1 k (run ev ((mid @ [(s, Authenticate a2 t2)]) @ later) v1))"
      using that unfolding v2 by (simp only: run_append)
    then show ?thesis
      using authenticated_client_credentials [OF 1 [unfolded authenticate_def]] by blast
  qed
  have b: "credentials q
           = (case url_auth (url s) of
                None \<Rightarrow> Some \<lparr>login = a2, password = t2, encoding = Utf8\<rparr>
              | Some e \<Rightarrow> Some e)"
    if "q \<in> set (issued ev c2 k (run ev later v2))" for later k q
    using authenticated_client_credentials [OF 2 [unfolded authenticate_def] that] .
  show ?thesis using d a b by blast
qed

lemma issued_server_info_open:
  assumes "session_at w (session self) = Some s" "\<not> closed s"
  shows "issued ev self Server_info w
         = [\<lparr>verb = GET, base = url self, joined = str ''api/'', encoded = False, params = [],
             json_body = None, credentials = request_auth (url self) s\<rparr>]"
  using assms
  by (simp add: issued_def invoke_def has_method_def server_info_def wire_session_request http_def)

lemma authenticate_after_create:
  "authenticate \<lparr>cls = Hippo, url = localhost, session = 0\<rparr> (str ''app'') (str ''token'')
     \<lparr>sessions = [\<lparr>closed = False, auth = None\<rparr>], wire = [], followed = []\<rparr>
   = (Inr \<lparr>cls = AuthenticatedHippo, url = localhost, session = 1\<rparr>,
      \<lparr>sessions = [\<lparr>closed = False, auth = None\<rparr>,
                   \<lparr>closed = False,
                    auth = Some \<lparr>login = str ''app'', password = str ''token'', encoding = Utf8\<rparr>\<rparr>],
       wire = [], followed = []\<rparr>)"
  by (simp add: authenticate_def AuthenticatedHippo_create_def construct_def Hippo_init_def
      BasicAuth_new_def ClientSession_new_def str_def)

lemma authenticate_again:
  "authenticate \<lparr>cls = Hippo, url = localhost, session = 0\<rparr> (str ''other'') (str ''secret'')
     \<lparr>sessions = [\<lparr>closed = False, auth = None\<rparr>,
                  \<lparr>closed = False,
                   auth = Some \<lparr>login = str ''app'', password = str ''token'', encoding = Utf8\<rparr>\<rparr>],
      wire = [], followed = []\<rparr>
   = (Inr \<lparr>cls = AuthenticatedHippo, url = localhost, session = 2\<rparr>,
      \<lparr>sessions = [\<lparr>closed = False, auth = None\<rparr>,
                   \<lparr>closed = False,
                    auth = Some \<lparr>login = str ''app'', password = str ''token'', encoding = Utf8\<rparr>\<rparr>,
                   \<lparr>closed = False,
                    auth = Some \<lparr>login = str ''other'', password = str ''secret'', encoding = Utf8\<rparr>\<rparr>],
       wire = [], followed = []\<rparr>)"
  by (simp add: authenticate_def AuthenticatedHippo_create_def construct_def Hippo_init_def
      BasicAuth_new_def ClientSession_new_def str_def)

lemma lower_str_bool: "lower (str_bool b) = (if b then str ''true'' else str ''false'')"
  by (simp add: lower_def str_bool_def str_def)

lemma issued_on_document_path:
  assumes "snd (invoke ev self k w)
           = snd (on_path (document_path d n) w
                    (\<lambda>target. with_response
                       (session_request (service ev) (session self) (http m (url self) target True [] b) w)
                       f))"
    and "rq \<in> set (issued ev self k w)"
  shows "document_path d n = Inr (joined rq)"
proof (cases "document_path d n")
  case (Inl e)
  then show ?thesis using assms by (simp add: issued_def on_path_def)
next
  case (Inr p)
  have "set (issued ev self k w)
        \<subseteq> {(http m (url self) p True [] b)\<lparr>credentials := cr\<rparr> | cr. True}"
    using assms(1) Inr
    by (auto simp: issued_def on_path_def wire_session_request split: option.splits if_splits)
  then have "joined rq = p" using assms(2) by (auto simp: http_def)
  then show ?thesis using Inr by simp
qed

lemma issued_document_call:
  assumes "document_call k = Some (d, n)" and "rq \<in> set (issued ev self k w)"
  shows "document_path d n = Inr (joined rq)"
proof (cases "has_method (cls self) k")
  case False
  then show ?thesis using assms(2) by (simp add: issued_def invoke_def)
next
  case True
  show ?thesis
  proof (cases k)
    case (Read_document p q)
    then show ?thesis
      using assms True
      by (intro issued_on_document_path [of ev self k w d n GET None json_result rq])
         (simp_all add: invoke_def read_document_def)
  next
    case (Update_document p q j)
    then show ?thesis
      using assms True
      by (intro issued_on_document_path [of ev self k w d n PUT "Some j" discard_text rq])
         (simp_all add: invoke_def update_document_def)
  next
    case (Delete_document p q)
    then show ?thesis
      using assms True
      by (intro issued_on_document_path [of ev self k w d n DELETE None discard_text rq])
         (simp_all add: invoke_def delete_document_def)
  qed (use assms(1) in simp_all)
qed

lemma document_path_inj:
  assumes "document_path db1 name1 = Inr p" "document_path db2 name2 = Inr p"
  shows "db1 = db2 \<and> name1 = name2"
proof -
  obtain d1 n1 where e1: "encode_path_segment db1 = Inr d1" "encode_path_segment name1 = Inr n1"
    and p1: "p = str ''api/'' @ d1 @ str ''/'' @ n1"
    using assms(1) unfolding document_path_Inr by blast
  obtain d2 n2 where e2: "encode_path_segment db2 = Inr d2" "encode_path_segment name2 = Inr n2"
    and p2: "p = str ''api/'' @ d2 @ str ''/'' @ n2"
    using assms(2) unfolding document_path_Inr by blast
  have "d1 @ 47 # n1 = d2 @ 47 # n2" using p1 p2 by (simp add: str_def)
  then have "d1 = d2 \<and> n1 = n2"
    using split_at_slash encode_path_segment_no_slash [OF e1(1)]
      encode_path_segment_no_slash [OF e2(1)] by blast
  then show ?thesis using e1 e2 encode_path_segment_inj by blast
qed

lemma encode_a_slash_b: "encode_path_segment (str ''a/b'') = Inr (str ''a%252Fb'')"
  by (simp add: encode_path_segment_def quote_def quote_from_bytes_def quoter_def
      hex_upper_def utf8_char_def ALWAYS_SAFE_def str_def)

lemma encode_c: "encode_path_segment (str ''c'') = Inr (str ''c'')"
  by (simp add: encode_path_segment_def quote_def quote_from_bytes_def utf8_char_def
      ALWAYS_SAFE_def str_def)

lemma encode_a: "encode_path_segment (str ''a'') = Inr (str ''a'')"
  by (simp add: encode_path_segment_def quote_def quote_from_bytes_def utf8_char_def
      ALWAYS_SAFE_def str_def)

lemma encode_b: "encode_path_segment (str ''b'') = Inr (str ''b'')"
  by (simp add: encode_path_segment_def quote_def quote_from_bytes_def utf8_char_def
      ALWAYS_SAFE_def str_def)

lemma encode_dotdot: "encode_path_segment (str ''..'') = Inr (str ''..'')"
  by (simp add: encode_path_segment_def quote_def quote_from_bytes_def utf8_char_def
      ALWAYS_SAFE_def str_def)

lemma url_auth_localhost [simp]: "url_auth localhost = None"
  by (simp add: localhost_def)

lemma request_auth_localhost [simp]: "request_auth localhost s = auth s"
  by (simp add: request_auth_def)

lemma joinpath_a_dotdot:
  "joinpath_encoded localhost (str ''api/a/..'')
   = Inr (URL (str ''http://localhost:8000'') None (str ''/api/''))"
  by (simp add: joinpath_encoded_def localhost_def normalize_path_segments_def str_def)

lemma joinpath_b_dotdot:
  "joinpath_encoded localhost (str ''api/b/..'')
   = Inr (URL (str ''http://localhost:8000'') None (str ''/api/''))"
  by (simp add: joinpath_encoded_def localhost_def normalize_path_segments_def str_def)

text \<open>
  A string that holds a surrogate code point anywhere cannot be encoded, and an
  application id that holds a colon anywhere is refused.
\<close>

lemma encode_utf8_surrogate:
  "c \<in> set s \<Longrightarrow> 0xD800 \<le> c \<Longrightarrow> c \<le> 0xDFFF \<Longrightarrow> encode_utf8 s = Inl UnicodeEncodeError"
proof (induction s)
  case Nil
  then show ?case by simp
next
  case (Cons x xs)
  show ?case
  proof (cases "x = c")
    case True
    then have "utf8_char x = None" using Cons.prems(2,3) by (simp add: utf8_char_def)
    then show ?thesis by simp
  next
    case False
    then have "encode_utf8 xs = Inl UnicodeEncodeError" using Cons by simp
    then show ?thesis by (simp split: option.splits)
  qed
qed

lemma encode_path_segment_surrogate:
  assumes "c \<in> set s" "0xD800 \<le> c" "c \<le> 0xDFFF"
  shows "encode_path_segment s = Inl UnicodeEncodeError"
proof -
  have "s \<noteq> []" using assms(1) by auto
  then have "quote s [] = Inl UnicodeEncodeError"
    using encode_utf8_surrogate [OF assms] by (simp add: quote_def)
  then show ?thesis by (simp add: encode_path_segment_def)
qed

lemma authenticate_colon_anywhere:
  "58 \<in> set application \<Longrightarrow> authenticate self application token w = (Inl ValueError, w)"
  by (simp add: authenticate_def AuthenticatedHippo_create_def construct_def Hippo_init_def
      BasicAuth_new_def)

section \<open>Claims about the path encoding\<close>

text \<open>
  C1, as the claim states it, fails: a Python string may hold a lone surrogate, and
  \<open>_encode_path_segment\<close> raises \<open>UnicodeEncodeError\<close> on it, so there is nothing for
  the service to decode. The input is the one-character string \<open>"\ud800"\<close>.
\<close>

theorem path_round_trip_surrogate: "encode_path_segment [0xD800] = Inl UnicodeEncodeError"
  by (simp add: encode_path_segment_def quote_def utf8_char_def)

text \<open>
  C1, amended: for every string \<open>s\<close> of Unicode scalar values (no surrogate code
  point; the empty string, \<open>/\<close>, \<open>%\<close>, spaces and characters of two, three or four
  UTF-8 bytes included), \<open>_encode_path_segment s\<close> returns a string, and the two
  percent-decoding passes of the service turn that string back into exactly \<open>s\<close>.
\<close>

theorem path_round_trip:
  assumes "\<forall>c\<in>set s. unicode_scalar c"
  shows "\<exists>r. encode_path_segment s = Inr r \<and> service_decode r = Some s"
  using encode_path_segment_total [OF assms] service_decode_encoded by blast

theorem path_round_trip_witness:
  "list_all unicode_scalar [97, 47, 37, 32, 0xE9, 0x20AC, 0x1F600]
   \<and> (\<exists>r. encode_path_segment [97, 47, 37, 32, 0xE9, 0x20AC, 0x1F600] = Inr r
          \<and> service_decode r = Some [97, 47, 37, 32, 0xE9, 0x20AC, 0x1F600])"
proof -
  have h: "\<forall>c\<in>set [97, 47, 37, 32, 0xE9, 0x20AC, 0x1F600]. unicode_scalar c"
    by (simp add: unicode_scalar_def)
  then have "list_all unicode_scalar [97, 47, 37, 32, 0xE9, 0x20AC, 0x1F600]"
    by (simp add: list_all_iff)
  then show ?thesis using path_round_trip [OF h] by blast
qed

text \<open>
  C2, as the claim states it, fails: it speaks of every string, and a Python string may
  hold a lone surrogate. On the two-character string \<open>"/\udc00"\<close>
  \<open>_encode_path_segment\<close> raises \<open>UnicodeEncodeError\<close>: there is no result, and the
  slash has not been escaped into anything.
\<close>

theorem encode_path_segment_double_surrogate:
  "encode_path_segment [47, 0xDC00] = Inl UnicodeEncodeError"
  by (simp add: encode_path_segment_def quote_def utf8_char_def)

text \<open>
  C2, amended: for every string \<open>s\<close> of Unicode scalar values (no surrogate code
  point), \<open>_encode_path_segment s\<close> returns a string \<open>r\<close>, made by two \<open>quote\<close> passes with
  an empty \<open>safe\<close> set. The first pass gives \<open>q\<close>: of the UTF-8 bytes \<open>bs\<close> of \<open>s\<close>, each
  unreserved character stays and every other byte, a slash among them, becomes \<open>%XX\<close>;
  \<open>q\<close> holds no \<open>/\<close>. The second pass gives \<open>r\<close>: it is \<open>q\<close> with every \<open>%\<close> replaced by
  \<open>%25\<close>, it holds no \<open>/\<close>, and it holds unreserved characters and \<open>%\<close> only.
\<close>

theorem encode_path_segment_double:
  assumes "\<forall>c\<in>set s. unicode_scalar c"
  shows "\<exists>bs q r. encode_utf8 s = Inr bs
           \<and> quote s [] = Inr q \<and> q = concat (map (quoter ALWAYS_SAFE) bs)
           \<and> quote q [] = Inr r \<and> encode_path_segment s = Inr r
           \<and> r = escape_percent q
           \<and> 47 \<notin> set q \<and> 47 \<notin> set r
           \<and> set r \<subseteq> set ALWAYS_SAFE \<union> {37}"
proof -
  obtain r where r: "encode_path_segment s = Inr r"
    using encode_path_segment_total [OF assms] by blast
  obtain q where q: "quote s [] = Inr q" and qr: "quote q [] = Inr r"
    using r unfolding encode_path_segment_Inr by blast
  obtain bs where bs: "encode_utf8 s = Inr bs" and qb: "q = concat (map (quoter ALWAYS_SAFE) bs)"
    using q unfolding quote_Inr by blast
  have e: "r = escape_percent q" using encode_path_segment_twice [OF r] q by simp
  have nq: "47 \<notin> set q" using quote_chars_ascii [OF q] by blast
  have nr: "47 \<notin> set r" using encode_path_segment_no_slash [OF r] .
  have cr: "set r \<subseteq> set ALWAYS_SAFE \<union> {37}" using quote_chars [OF qr] .
  show ?thesis using bs q qb qr r e nq nr cr by blast
qed

theorem encode_path_segment_double_witness:
  "list_all unicode_scalar (str ''a/b'')
   \<and> quote (str ''a/b'') [] = Inr (str ''a%2Fb'')
   \<and> encode_path_segment (str ''a/b'') = Inr (str ''a%252Fb'')
   \<and> escape_percent (str ''a%2Fb'') = str ''a%252Fb''"
proof -
  have h: "\<forall>c\<in>set (str ''a/b''). unicode_scalar c"
    by (simp add: str_def unicode_scalar_def)
  have l: "list_all unicode_scalar (str ''a/b'')" using h by (simp add: list_all_iff)
  have q: "quote (str ''a/b'') [] = Inr (str ''a%2Fb'')"
    by (simp add: quote_def quote_from_bytes_def quoter_def hex_upper_def utf8_char_def
        ALWAYS_SAFE_def str_def)
  show ?thesis using encode_path_segment_double [OF h] q l encode_a_slash_b by auto
qed

text \<open>
  The path that \<open>read_document\<close>, \<open>update_document\<close> and \<open>delete_document\<close> hand to
  \<open>joinpath\<close> for the document \<open>(d, n)\<close> is \<open>"api/" + enc(d) + "/" + enc(n)\<close>, and as a
  string it determines the document: when two such requests, for \<open>(d1, n1)\<close> and
  \<open>(d2, n2)\<close>, by any clients in any worlds, carry the same path, then \<open>d1 = d2\<close> and
  \<open>n1 = n2\<close>.
\<close>

theorem request_path_injective:
  assumes "document_call k1 = Some (d1, n1)" and "document_call k2 = Some (d2, n2)"
    and "rq1 \<in> set (issued ev1 c1 k1 w1)" and "rq2 \<in> set (issued ev2 c2 k2 w2)"
    and "joined rq1 = joined rq2"
  shows "document_path d1 n1 = Inr (joined rq1) \<and> d1 = d2 \<and> n1 = n2"
proof -
  have 1: "document_path d1 n1 = Inr (joined rq1)"
    using issued_document_call [OF assms(1,3)] .
  have 2: "document_path d2 n2 = Inr (joined rq1)"
    using issued_document_call [OF assms(2,4)] assms(5) by simp
  show ?thesis using 1 document_path_inj [OF 1 2] by simp
qed

text \<open>
  C10 does not hold of the code: two different document addresses can map to the same
  URL. \<open>quote\<close> leaves the dots of a segment as they are, and \<open>joinpath\<close>, also with
  \<open>encoded=True\<close>, resolves the segments \<open>.\<close> and \<open>..\<close> of the path it is given. The documents
  \<open>("a", "..")\<close> and \<open>("b", "..")\<close> get the different paths \<open>api/a/..\<close> and \<open>api/b/..\<close>, and
  both requests go to the URL \<open>http://localhost:8000/api/\<close>.
\<close>

theorem dot_segments_share_a_url:
  "issued not_found \<lparr>cls = AuthenticatedHippo, url = localhost, session = 0\<rparr>
     (Read_document (str ''a'') (str ''..''))
     (snd (AuthenticatedHippo_create localhost (str ''app'') (str ''token'') fresh))
   = [\<lparr>verb = GET, base = localhost, joined = str ''api/a/..'', encoded = True,
       params = [], json_body = None,
       credentials = Some \<lparr>login = str ''app'', password = str ''token'', encoding = Utf8\<rparr>\<rparr>]
   \<and> issued not_found \<lparr>cls = AuthenticatedHippo, url = localhost, session = 0\<rparr>
     (Read_document (str ''b'') (str ''..''))
     (snd (AuthenticatedHippo_create localhost (str ''app'') (str ''token'') fresh))
   = [\<lparr>verb = GET, base = localhost, joined = str ''api/b/..'', encoded = True,
       params = [], json_body = None,
       credentials = Some \<lparr>login = str ''app'', password = str ''token'', encoding = Utf8\<rparr>\<rparr>]
   \<and> joinpath_encoded localhost (str ''api/a/..'')
     = Inr (URL (str ''http://localhost:8000'') None (str ''/api/''))
   \<and> joinpath_encoded localhost (str ''api/b/..'')
     = Inr (URL (str ''http://localhost:8000'') None (str ''/api/''))"
proof -
  let ?A = "\<lparr>cls = AuthenticatedHippo, url = localhost, session = 0\<rparr>"
  let ?W = "snd (AuthenticatedHippo_create localhost (str ''app'') (str ''token'') fresh)"
  have pa: "document_path (str ''a'') (str ''..'') = Inr (str ''api/a/..'')"
    unfolding document_path_def encode_a encode_dotdot by (simp add: str_def)
  have pb: "document_path (str ''b'') (str ''..'') = Inr (str ''api/b/..'')"
    unfolding document_path_def encode_b encode_dotdot by (simp add: str_def)
  have a: "issued not_found ?A (Read_document (str ''a'') (str ''..'')) ?W
           = [\<lparr>verb = GET, base = localhost, joined = str ''api/a/..'', encoded = True,
               params = [], json_body = None,
               credentials = Some \<lparr>login = str ''app'', password = str ''token'',
                                     encoding = Utf8\<rparr>\<rparr>]"
    by (simp add: AuthenticatedHippo_create_fresh issued_def invoke_def has_method_def
        read_document_def pa on_path_def wire_session_request session_at_def http_def)
  have b: "issued not_found ?A (Read_document (str ''b'') (str ''..'')) ?W
           = [\<lparr>verb = GET, base = localhost, joined = str ''api/b/..'', encoded = True,
               params = [], json_body = None,
               credentials = Some \<lparr>login = str ''app'', password = str ''token'',
                                     encoding = Utf8\<rparr>\<rparr>]"
    by (simp add: AuthenticatedHippo_create_fresh issued_def invoke_def has_method_def
        read_document_def pb on_path_def wire_session_request session_at_def http_def)
  show ?thesis using a b joinpath_a_dotdot joinpath_b_dotdot by simp
qed

section \<open>Claims about construction\<close>

text \<open>
  C9: calling the constructor of either class without the internal flag (omitted, or
  passed as \<open>False\<close>) raises an exception and yields no instance. The exception is
  \<open>TypeError\<close>, because \<open>NotImplemented\<close> is not an exception class.
\<close>

theorem direct_construction_raises:
  "construct c None = Inl TypeError \<and> construct c (Some False) = Inl TypeError"
  by (simp add: construct_def Hippo_init_def)

section \<open>Claims about closed clients\<close>

text \<open>
  C3, as the claim states it, fails: \<open>authenticate\<close> never touches the session of its
  receiver, so on a client that has been closed it still returns a new authenticated
  client.
\<close>

theorem closed_client_authenticate:
  "fst (invoke not_found \<lparr>cls = Hippo, url = localhost, session = 0\<rparr>
          (Authenticate (str ''app'') (str ''token''))
          (snd (close \<lparr>cls = Hippo, url = localhost, session = 0\<rparr> (snd (Hippo_create localhost fresh)))))
     = Inr (Client \<lparr>cls = AuthenticatedHippo, url = localhost, session = 1\<rparr>)"
  by (simp add: Hippo_create_fresh close_created invoke_def has_method_def returning_def
      authenticate_def AuthenticatedHippo_create_def construct_def Hippo_init_def
      BasicAuth_new_def ClientSession_new_def str_def)

text \<open>
  C3, amended: after \<open>close()\<close> has completed, every operation other than \<open>close()\<close> and
  \<open>authenticate()\<close> fails, leaves the world as it is and puts no request on the wire.
  The failure is the \<open>RuntimeError\<close> that a closed \<open>aiohttp\<close> session raises (the
  library defines no \<open>ClosedClientError\<close>); it is that error whenever the class of the
  client has the method and the path arguments can be encoded. Otherwise the call
  fails earlier, with \<open>AttributeError\<close> or \<open>UnicodeEncodeError\<close>.
\<close>

theorem closed_client_fails:
  assumes "session_at w (session self) = Some s"
    and "k \<noteq> Close" and "\<forall>a t. k \<noteq> Authenticate a t"
  shows "snd (invoke ev self k (snd (close self w))) = snd (close self w)
         \<and> issued ev self k (snd (close self w)) = []
         \<and> (fst (invoke ev self k (snd (close self w))) = Inl RuntimeError
            \<or> fst (invoke ev self k (snd (close self w))) = Inl UnicodeEncodeError
            \<or> fst (invoke ev self k (snd (close self w))) = Inl AttributeError)
         \<and> (has_method (cls self) k \<and> list_all (list_all unicode_scalar) (path_arguments k)
              \<longrightarrow> fst (invoke ev self k (snd (close self w))) = Inl RuntimeError)"
proof -
  let ?w = "snd (close self w)"
  have c: "session_at ?w (session self) = Some (s\<lparr>closed := True\<rparr>)"
    using assms(1) by (rule close_closes)
  have d: "closed (s\<lparr>closed := True\<rparr>)" by simp
  have a: "invoke ev self k ?w = (Inl RuntimeError, ?w)
           \<or> invoke ev self k ?w = (Inl UnicodeEncodeError, ?w)
           \<or> invoke ev self k ?w = (Inl AttributeError, ?w)"
    using invoke_closed [OF c d assms(2,3)] .
  then have w: "snd (invoke ev self k ?w) = ?w" by auto
  have b: "has_method (cls self) k \<and> list_all (list_all unicode_scalar) (path_arguments k)
           \<longrightarrow> fst (invoke ev self k ?w) = Inl RuntimeError"
    using invoke_closed_encodable [OF c d assms(2,3)] by simp
  show ?thesis using a b w by (auto simp: issued_def)
qed

theorem closed_client_fails_witness:
  "fst (invoke not_found \<lparr>cls = Hippo, url = localhost, session = 0\<rparr> Server_info
          (snd (close \<lparr>cls = Hippo, url = localhost, session = 0\<rparr> (snd (Hippo_create localhost fresh)))))
     = Inl RuntimeError
   \<and> issued not_found \<lparr>cls = Hippo, url = localhost, session = 0\<rparr> Server_info
          (snd (close \<lparr>cls = Hippo, url = localhost, session = 0\<rparr> (snd (Hippo_create localhost fresh))))
     = []"
proof -
  have s: "session_at (snd (Hippo_create localhost fresh))
             (session \<lparr>cls = Hippo, url = localhost, session = 0\<rparr>)
           = Some \<lparr>closed = False, auth = None\<rparr>"
    by (simp add: Hippo_create_fresh session_at_def)
  have k: "Server_info \<noteq> Close" "\<forall>a t. Server_info \<noteq> Authenticate a t" by simp_all
  show ?thesis
    using closed_client_fails [OF s k, of not_found]
    by (simp add: has_method_def)
qed

section \<open>Claims about response statuses\<close>




section \<open>Claims about authentication\<close>

text \<open>
  C5, as the claim states it, fails: \<open>BasicAuth\<close> rejects a login that contains a colon,
  so \<open>authenticate("a:b", token)\<close> raises \<open>ValueError\<close>.
\<close>

theorem authenticate_colon:
  "fst (authenticate \<lparr>cls = Hippo, url = localhost, session = 0\<rparr> (str ''a:b'') (str ''token'')
          (snd (Hippo_create localhost fresh)))
     = Inl ValueError"
  by (simp add: Hippo_create_fresh authenticate_def AuthenticatedHippo_create_def
      construct_def Hippo_init_def BasicAuth_new_def str_def)

text \<open>
  C5, amended: for every application id without a colon and every token,
  \<open>authenticate\<close> returns a new authenticated client with the base URL of its receiver,
  whose session is a new, open one carrying the Basic credentials (application id,
  token, UTF-8). The sessions that existed before, the receiver's own among them, are
  unchanged, and nothing is put on the wire.
\<close>

theorem authenticate_new_context:
  assumes "58 \<notin> set application"
  shows "fst (authenticate self application token w)
           = Inr \<lparr>cls = AuthenticatedHippo, url = url self, session = length (sessions w)\<rparr>
         \<and> sessions (snd (authenticate self application token w))
           = sessions w @ [\<lparr>closed = False,
                            auth = Some \<lparr>login = application, password = token, encoding = Utf8\<rparr>\<rparr>]
         \<and> wire (snd (authenticate self application token w)) = wire w
         \<and> (session self < length (sessions w) \<longrightarrow>
              session_at (snd (authenticate self application token w)) (session self)
              = session_at w (session self))"
  using assms
  by (simp add: authenticate_def AuthenticatedHippo_create_def construct_def Hippo_init_def
      BasicAuth_new_def ClientSession_new_def session_at_def nth_append)

theorem authenticate_new_context_witness:
  "fst (authenticate \<lparr>cls = Hippo, url = localhost, session = 0\<rparr> (str ''app'') (str ''token'')
          (snd (Hippo_create localhost fresh)))
     = Inr \<lparr>cls = AuthenticatedHippo, url = localhost, session = 1\<rparr>
   \<and> sessions (snd (authenticate \<lparr>cls = Hippo, url = localhost, session = 0\<rparr> (str ''app'')
          (str ''token'') (snd (Hippo_create localhost fresh))))
     = [\<lparr>closed = False, auth = None\<rparr>,
        \<lparr>closed = False,
         auth = Some \<lparr>login = str ''app'', password = str ''token'', encoding = Utf8\<rparr>\<rparr>]"
proof -
  have h: "58 \<notin> set (str ''app'')" by (simp add: str_def)
  show ?thesis
    using authenticate_new_context [OF h, of "\<lparr>cls = Hippo, url = localhost, session = 0\<rparr>"
        "str ''token''" "snd (Hippo_create localhost fresh)"]
    by (simp add: Hippo_create_fresh)
qed

text \<open>
  C6, as the claim states it, fails: \<open>aiohttp\<close> sends the credentials written into the URL
  of a request in place of the default credentials of the session. With the base URL
  \<open>http://user:pw@localhost:8000/\<close> the request of a session client carries the Basic
  credentials \<open>(user, pw)\<close>, and so does the request of an authenticated client made with
  \<open>(app, token)\<close>.
\<close>

theorem url_credentials_are_sent:
  "map credentials
     (issued not_found \<lparr>cls = Hippo, url = localhost_userinfo, session = 0\<rparr> Server_info
        (snd (Hippo_create localhost_userinfo fresh)))
   = [Some \<lparr>login = str ''user'', password = str ''pw'', encoding = Latin1\<rparr>]
   \<and> map credentials
     (issued not_found \<lparr>cls = AuthenticatedHippo, url = localhost_userinfo, session = 0\<rparr>
        Server_info
        (snd (AuthenticatedHippo_create localhost_userinfo (str ''app'') (str ''token'') fresh)))
   = [Some \<lparr>login = str ''user'', password = str ''pw'', encoding = Latin1\<rparr>]
   \<and> fst (Hippo_create localhost_userinfo fresh)
     = Inr \<lparr>cls = Hippo, url = localhost_userinfo, session = 0\<rparr>
   \<and> fst (AuthenticatedHippo_create localhost_userinfo (str ''app'') (str ''token'') fresh)
     = Inr \<lparr>cls = AuthenticatedHippo, url = localhost_userinfo, session = 0\<rparr>"
  by (simp add: Hippo_create_def AuthenticatedHippo_create_def construct_def Hippo_init_def
      BasicAuth_new_def ClientSession_new_def fresh_def issued_def invoke_def has_method_def
      server_info_def wire_session_request session_at_def http_def request_auth_def
      localhost_userinfo_def str_def)

text \<open>
  C6, amended: the claim holds of a base URL that has no credentials written into it, and
  of the requests that the operations hand to their sessions (the further requests of a
  redirect that \<open>aiohttp\<close> follows are its own). At any later time, after any calls by any
  clients, every request of a call on a client made by \<open>Hippo.create\<close> carries the
  credentials of the base URL, that is none when the URL has none; and every request of
  a call on a client made by \<open>AuthenticatedHippo.create\<close> carries exactly the credentials
  given at its creation when the URL has none, and those of the URL otherwise. Two
  clients obtained by \<open>authenticate\<close> from the same session client have different
  sessions, and each keeps sending its own credentials.
\<close>

theorem credentials_fixed_at_creation:
  "(Hippo_create u w0 = (Inr c, w1) \<and> rq \<in> set (issued ev c k (run ev steps w1))
      \<longrightarrow> credentials rq = url_auth u)
   \<and> (AuthenticatedHippo_create u' a t w0' = (Inr c', w1')
        \<and> rq' \<in> set (issued ev c' k' (run ev steps' w1'))
      \<longrightarrow> credentials rq'
          = (case url_auth u' of
               None \<Rightarrow> Some \<lparr>login = a, password = t, encoding = Utf8\<rparr>
             | Some e \<Rightarrow> Some e))
   \<and> (authenticate s a1 t1 v0 = (Inr c1, v1)
        \<and> authenticate s a2 t2 (run ev mid v1) = (Inr c2, v2)
      \<longrightarrow> session c1 \<noteq> session c2
          \<and> (\<forall>later k q. q \<in> set (issued ev c1 k (run ev later v2)) \<longrightarrow>
                credentials q
                = (case url_auth (url s) of
                     None \<Rightarrow> Some \<lparr>login = a1, password = t1, encoding = Utf8\<rparr>
                   | Some e \<Rightarrow> Some e))
          \<and> (\<forall>later k q. q \<in> set (issued ev c2 k (run ev later v2)) \<longrightarrow>
                credentials q
                = (case url_auth (url s) of
                     None \<Rightarrow> Some \<lparr>login = a2, password = t2, encoding = Utf8\<rparr>
                   | Some e \<Rightarrow> Some e)))"
proof (intro conjI impI)
  assume "Hippo_create u w0 = (Inr c, w1) \<and> rq \<in> set (issued ev c k (run ev steps w1))"
  then show "credentials rq = url_auth u"
    using session_client_credentials [of u w0 c w1 rq ev k steps] by simp
next
  assume "AuthenticatedHippo_create u' a t w0' = (Inr c', w1')
          \<and> rq' \<in> set (issued ev c' k' (run ev steps' w1'))"
  then show "credentials rq'
             = (case url_auth u' of
                  None \<Rightarrow> Some \<lparr>login = a, password = t, encoding = Utf8\<rparr>
                | Some e \<Rightarrow> Some e)"
    using authenticated_client_credentials [of u' a t w0' c' w1' rq' ev k' steps'] by simp
next
  assume h: "authenticate s a1 t1 v0 = (Inr c1, v1)
             \<and> authenticate s a2 t2 (run ev mid v1) = (Inr c2, v2)"
  note r = two_authenticated_clients [OF conjunct1 [OF h] conjunct2 [OF h]]
  show "session c1 \<noteq> session c2" using r by (rule conjunct1)
  show "\<forall>later k q. q \<in> set (issued ev c1 k (run ev later v2)) \<longrightarrow>
          credentials q
          = (case url_auth (url s) of
               None \<Rightarrow> Some \<lparr>login = a1, password = t1, encoding = Utf8\<rparr>
             | Some e \<Rightarrow> Some e)"
    using r by (rule conjunct1 [OF conjunct2])
  show "\<forall>later k q. q \<in> set (issued ev c2 k (run ev later v2)) \<longrightarrow>
          credentials q
          = (case url_auth (url s) of
               None \<Rightarrow> Some \<lparr>login = a2, password = t2, encoding = Utf8\<rparr>
             | Some e \<Rightarrow> Some e)"
    using r by (rule conjunct2 [OF conjunct2])
qed

theorem credentials_fixed_at_creation_witness:
  "Hippo_create localhost fresh
     = (Inr \<lparr>cls = Hippo, url = localhost, session = 0\<rparr>,
        \<lparr>sessions = [\<lparr>closed = False, auth = None\<rparr>], wire = [], followed = []\<rparr>)
   \<and> map credentials
        (issued not_found \<lparr>cls = Hippo, url = localhost, session = 0\<rparr> Server_info
           \<lparr>sessions = [\<lparr>closed = False, auth = None\<rparr>], wire = [], followed = []\<rparr>)
     = [None]
   \<and> session \<lparr>cls = AuthenticatedHippo, url = localhost, session = 1\<rparr>
     \<noteq> session \<lparr>cls = AuthenticatedHippo, url = localhost, session = 2\<rparr>
   \<and> map credentials
        (issued not_found \<lparr>cls = AuthenticatedHippo, url = localhost, session = 1\<rparr> Server_info
           \<lparr>sessions = [\<lparr>closed = False, auth = None\<rparr>,
                        \<lparr>closed = False,
                         auth = Some \<lparr>login = str ''app'', password = str ''token'', encoding = Utf8\<rparr>\<rparr>,
                        \<lparr>closed = False,
                         auth = Some \<lparr>login = str ''other'', password = str ''secret'', encoding = Utf8\<rparr>\<rparr>],
            wire = [], followed = []\<rparr>)
     = [Some \<lparr>login = str ''app'', password = str ''token'', encoding = Utf8\<rparr>]
   \<and> map credentials
        (issued not_found \<lparr>cls = AuthenticatedHippo, url = localhost, session = 2\<rparr> Server_info
           \<lparr>sessions = [\<lparr>closed = False, auth = None\<rparr>,
                        \<lparr>closed = False,
                         auth = Some \<lparr>login = str ''app'', password = str ''token'', encoding = Utf8\<rparr>\<rparr>,
                        \<lparr>closed = False,
                         auth = Some \<lparr>login = str ''other'', password = str ''secret'', encoding = Utf8\<rparr>\<rparr>],
            wire = [], followed = []\<rparr>)
     = [Some \<lparr>login = str ''other'', password = str ''secret'', encoding = Utf8\<rparr>]"
proof -
  let ?C0 = "\<lparr>cls = Hippo, url = localhost, session = 0\<rparr>"
  let ?C1 = "\<lparr>cls = AuthenticatedHippo, url = localhost, session = 1\<rparr>"
  let ?C2 = "\<lparr>cls = AuthenticatedHippo, url = localhost, session = 2\<rparr>"
  let ?S0 = "\<lparr>closed = False, auth = None\<rparr>"
  let ?S1 = "\<lparr>closed = False,
              auth = Some \<lparr>login = str ''app'', password = str ''token'', encoding = Utf8\<rparr>\<rparr>"
  let ?S2 = "\<lparr>closed = False,
              auth = Some \<lparr>login = str ''other'', password = str ''secret'', encoding = Utf8\<rparr>\<rparr>"
  let ?W1 = "\<lparr>sessions = [?S0], wire = [], followed = []\<rparr>"
  let ?W2 = "\<lparr>sessions = [?S0, ?S1], wire = [], followed = []\<rparr>"
  let ?W3 = "\<lparr>sessions = [?S0, ?S1, ?S2], wire = [], followed = []\<rparr>"
  let ?R = "\<lambda>cr. \<lparr>verb = GET, base = localhost, joined = str ''api/'', encoded = False,
                  params = [], json_body = None, credentials = cr\<rparr>"
  have i0: "issued not_found ?C0 Server_info ?W1 = [?R None]"
    using issued_server_info_open [of ?W1 ?C0 ?S0 not_found] by (simp add: session_at_def)
  have i1: "issued not_found ?C1 Server_info ?W3 = [?R (auth ?S1)]"
    using issued_server_info_open [of ?W3 ?C1 ?S1 not_found] by (simp add: session_at_def)
  have i2: "issued not_found ?C2 Server_info ?W3 = [?R (auth ?S2)]"
    using issued_server_info_open [of ?W3 ?C2 ?S2 not_found] by (simp add: session_at_def)
  have a1: "authenticate ?C0 (str ''app'') (str ''token'') ?W1 = (Inr ?C1, ?W2)"
    by (rule authenticate_after_create)
  have a2: "authenticate ?C0 (str ''other'') (str ''secret'') (run not_found [] ?W2) = (Inr ?C2, ?W3)"
    using authenticate_again by simp
  have b: "AuthenticatedHippo_create localhost (str ''app'') (str ''token'') ?W1 = (Inr ?C1, ?W2)"
    using a1 by (simp add: authenticate_def)
  note t = credentials_fixed_at_creation
    [where u = localhost and ?w0.0 = fresh and c = ?C0 and ?w1.0 = ?W1 and rq = "?R None"
       and ev = not_found and k = Server_info and steps = "[]"
       and u' = localhost and a = "str ''app''" and t = "str ''token''" and w0' = ?W1
       and c' = ?C1 and w1' = ?W2 and rq' = "?R (auth ?S1)" and k' = Server_info
       and steps' = "[(?C0, Authenticate (str ''other'') (str ''secret''))]"
       and s = ?C0 and ?a1.0 = "str ''app''" and ?t1.0 = "str ''token''" and ?v0.0 = ?W1
       and ?c1.0 = ?C1 and ?v1.0 = ?W2 and mid = "[]" and ?a2.0 = "str ''other''"
       and ?t2.0 = "str ''secret''" and ?c2.0 = ?C2 and ?v2.0 = ?W3]
  have r3: "run not_found [(?C0, Authenticate (str ''other'') (str ''secret''))] ?W2 = ?W3"
    using authenticate_again by (simp add: invoke_Authenticate)
  show ?thesis
    using t a1 a2 b i0 i1 i2 r3 Hippo_create_fresh by simp
qed

section \<open>Claims about single requests\<close>

text \<open>
  C7: on an open session, \<open>new_token(application, writeable)\<close> issues one request:
  \<open>POST api/tokens/new\<close> with the query parameters \<open>app_id = application\<close> and
  \<open>writeable\<close>, which is \<open>"true"\<close> when \<open>writeable\<close> is true and \<open>"false"\<close> when it is false
  or omitted.
\<close>

theorem new_token_request:
  assumes "session_at w (session self) = Some s" and "\<not> closed s"
  shows "wire (snd (new_token ev self application writeable_arg w))
         = wire w @
           [\<lparr>verb = POST, base = url self, joined = str ''api/tokens/new'', encoded = False,
             params = [(str ''app_id'', application),
                       (str ''writeable'',
                        if writeable_arg = Some True then str ''true'' else str ''false'')],
             json_body = None, credentials = request_auth (url self) s\<rparr>]"
proof (cases writeable_arg)
  case None
  then show ?thesis
    using assms
    by (simp add: new_token_def wire_session_request http_def lower_str_bool)
next
  case (Some b)
  then show ?thesis
    using assms
    by (cases b) (simp_all add: new_token_def wire_session_request http_def lower_str_bool)
qed

theorem new_token_request_witness:
  "wire (snd (new_token not_found \<lparr>cls = Hippo, url = localhost, session = 0\<rparr> (str ''app'')
                (Some True) \<lparr>sessions = [\<lparr>closed = False, auth = None\<rparr>], wire = [], followed = []\<rparr>))
     = [\<lparr>verb = POST, base = localhost, joined = str ''api/tokens/new'', encoded = False,
         params = [(str ''app_id'', str ''app''), (str ''writeable'', str ''true'')],
         json_body = None, credentials = None\<rparr>]
   \<and> wire (snd (new_token not_found \<lparr>cls = Hippo, url = localhost, session = 0\<rparr> (str ''app'')
                None \<lparr>sessions = [\<lparr>closed = False, auth = None\<rparr>], wire = [], followed = []\<rparr>))
     = [\<lparr>verb = POST, base = localhost, joined = str ''api/tokens/new'', encoded = False,
         params = [(str ''app_id'', str ''app''), (str ''writeable'', str ''false'')],
         json_body = None, credentials = None\<rparr>]"
proof -
  let ?C0 = "\<lparr>cls = Hippo, url = localhost, session = 0\<rparr>"
  let ?S0 = "\<lparr>closed = False, auth = None\<rparr>"
  let ?W1 = "\<lparr>sessions = [?S0], wire = [], followed = []\<rparr>"
  have s: "session_at ?W1 (session ?C0) = Some ?S0" by (simp add: session_at_def)
  have o: "\<not> closed ?S0" by simp
  show ?thesis
    using new_token_request [OF s o, of not_found "str ''app''" "Some True"]
      new_token_request [OF s o, of not_found "str ''app''" None]
    by simp
qed

text \<open>
  C8: on an open session, \<open>create_database(path)\<close> issues one request:
  \<open>POST api/create_db\<close> with the query parameter \<open>path\<close> holding the path as given, not
  encoded as a segment. When the service answers with a JSON object whose \<open>path\<close> is a
  string, the operation returns the \<open>DatabaseInfo\<close> with that path.
\<close>

theorem create_database_request:
  assumes "session_at w (session self) = Some s" and "\<not> closed s"
  shows "wire (snd (create_database ev self db_path w))
         = wire w @
           [\<lparr>verb = POST, base = url self, joined = str ''api/create_db'', encoded = False,
             params = [(str ''path'', db_path)], json_body = None,
             credentials = request_auth (url self) s\<rparr>]
         \<and> (\<forall>resp kvs p.
               service ev (wire w)
                 \<lparr>verb = POST, base = url self, joined = str ''api/create_db'', encoded = False,
                  params = [(str ''path'', db_path)], json_body = None,
                  credentials = request_auth (url self) s\<rparr>
               = Response resp
               \<and> json_result resp = Inr (JObject kvs)
               \<and> map_of kvs (str ''path'') = Some (JString p)
               \<longrightarrow> fst (create_database ev self db_path w) = Inr \<lparr>path = p\<rparr>)"
proof (intro conjI allI impI)
  show "wire (snd (create_database ev self db_path w))
        = wire w @
          [\<lparr>verb = POST, base = url self, joined = str ''api/create_db'', encoded = False,
            params = [(str ''path'', db_path)], json_body = None,
            credentials = request_auth (url self) s\<rparr>]"
    using assms by (simp add: create_database_def wire_session_request http_def)
next
  fix resp kvs p
  assume "service ev (wire w)
            \<lparr>verb = POST, base = url self, joined = str ''api/create_db'', encoded = False,
             params = [(str ''path'', db_path)], json_body = None,
             credentials = request_auth (url self) s\<rparr>
          = Response resp
          \<and> json_result resp = Inr (JObject kvs)
          \<and> map_of kvs (str ''path'') = Some (JString p)"
  then show "fst (create_database ev self db_path w) = Inr \<lparr>path = p\<rparr>"
    using assms
    by (simp add: create_database_def fst_with_response session_request_open
        http_def DatabaseInfo_of_def kwargs_def DatabaseInfo_new_def)
qed

theorem create_database_request_witness:
  "wire (snd (create_database (answering (JObject [(str ''path'', JString (str ''/a/b''))]))
                \<lparr>cls = AuthenticatedHippo, url = localhost, session = 0\<rparr> (str ''/a/b'')
                (snd (AuthenticatedHippo_create localhost (str ''app'') (str ''token'') fresh))))
     = [\<lparr>verb = POST, base = localhost, joined = str ''api/create_db'', encoded = False,
         params = [(str ''path'', str ''/a/b'')], json_body = None,
         credentials = Some \<lparr>login = str ''app'', password = str ''token'', encoding = Utf8\<rparr>\<rparr>]
   \<and> fst (create_database (answering (JObject [(str ''path'', JString (str ''/a/b''))]))
                \<lparr>cls = AuthenticatedHippo, url = localhost, session = 0\<rparr> (str ''/a/b'')
                (snd (AuthenticatedHippo_create localhost (str ''app'') (str ''token'') fresh)))
     = Inr \<lparr>path = str ''/a/b''\<rparr>"
proof -
  let ?A = "\<lparr>cls = AuthenticatedHippo, url = localhost, session = 0\<rparr>"
  let ?S = "\<lparr>closed = False,
             auth = Some \<lparr>login = str ''app'', password = str ''token'', encoding = Utf8\<rparr>\<rparr>"
  let ?W = "snd (AuthenticatedHippo_create localhost (str ''app'') (str ''token'') fresh)"
  have s: "session_at ?W (session ?A) = Some ?S"
    by (simp add: AuthenticatedHippo_create_fresh session_at_def)
  have o: "\<not> closed ?S" by simp
  show ?thesis
    using create_database_request [OF s o,
        of "answering (JObject [(str ''path'', JString (str ''/a/b''))])" "str ''/a/b''"]
    by (simp add: AuthenticatedHippo_create_fresh answering_def)
qed

end
